theory Spec2Isabelle
  imports Main "HOL-Library.Word" "HOL-Library.Sublist"
begin

unbundle bit_operations_syntax

section \<open>Machine data\<close>

text \<open>
  The development embeds \<^verbatim>\<open>js/src/jit/AsmJSModule.cpp\<close>: the finished asm.js module
  (one executable image plus its metadata tables), its symbol index, its linker, its
  profiling patcher and its cache codec.

  A pointer is a word of the target's pointer width \<open>'p\<close> (32 bits on x86 and ARM, 64 bits
  on x64); \<^verbatim>\<open>uint32_t\<close> is \<open>32 word\<close>; offsets into an image that index a byte list are
  read with \<open>unat\<close>. The null pointer is the word 0.
\<close>

type_synonym byte = "8 word"
type_synonym u32 = "32 word"
type_synonym jschar = "16 word"

text \<open>Little-endian object representation of unsigned integers (x86, x64 and ARM as
  configured by Gecko are little-endian).\<close>

fun le_bytes :: "nat \<Rightarrow> nat \<Rightarrow> byte list" where
  "le_bytes 0 v = []"
| "le_bytes (Suc n) v = of_nat (v mod 256) # le_bytes n (v div 256)"

fun le_value :: "byte list \<Rightarrow> nat" where
  "le_value [] = 0"
| "le_value (b # bs) = unat b + 256 * le_value bs"

text \<open>\<^verbatim>\<open>sizeof\<close> of a word type in bytes.\<close>

definition word_bytes :: "'a::len word \<Rightarrow> nat" where
  "word_bytes w = (LENGTH('a) + 7) div 8"

definition word_to_bytes :: "'a::len word \<Rightarrow> byte list" where
  "word_to_bytes w = le_bytes (word_bytes w) (unat w)"

definition word_of_bytes :: "byte list \<Rightarrow> 'a::len word" where
  "word_of_bytes bs = of_nat (le_value bs)"

section \<open>The symbol index: code ranges and call sites\<close>

text \<open>
  \<^verbatim>\<open>AsmJSModule::CodeRange\<close>. The constructors and \<^verbatim>\<open>setDeltas\<close> of the source give the
  fields: three 32-bit offsets, the name index and line number of a function, a kind and,
  for a function, three one-byte deltas from which \<^verbatim>\<open>entry()\<close>, \<^verbatim>\<open>profilingJump()\<close> and
  \<^verbatim>\<open>profilingEpilogue()\<close> are recomputed.
\<close>

datatype Kind = Function | Entry | Inline | Thunk

record CodeRange =
  cr_nameIndex :: u32
  cr_lineNumber :: u32
  cr_begin :: u32
  cr_profilingReturn :: u32
  cr_end :: u32
  cr_kind :: Kind
  beginToEntry :: byte
  profilingJumpToProfilingReturn :: byte
  profilingEpilogueToProfilingReturn :: byte
  thunk_target :: u32

definition isFunction :: "CodeRange \<Rightarrow> bool" where
  "isFunction cr = (cr_kind cr = Function)"

definition isThunk :: "CodeRange \<Rightarrow> bool" where
  "isThunk cr = (cr_kind cr = Thunk)"

definition entry :: "CodeRange \<Rightarrow> u32" where
  "entry cr = cr_begin cr + ucast (beginToEntry cr)"

definition profilingJump :: "CodeRange \<Rightarrow> u32" where
  "profilingJump cr = cr_profilingReturn cr - ucast (profilingJumpToProfilingReturn cr)"

definition profilingEpilogue :: "CodeRange \<Rightarrow> u32" where
  "profilingEpilogue cr = cr_profilingReturn cr - ucast (profilingEpilogueToProfilingReturn cr)"



datatype CallSiteKind = Relative | External

record CallSite =
  returnAddressOffset :: u32
  cs_kind :: CallSiteKind



section \<open>The module and the memory it owns\<close>

text \<open>
  A \<^verbatim>\<open>PropertyName *\<close> is an interned atom: two pointers are equal exactly when the
  characters are, so the model identifies a name with its characters and their storage
  (\<^verbatim>\<open>hasLatin1Chars()\<close>). A nullable name pointer is an option.
\<close>

datatype PropertyName = Latin1Name "byte list" | TwoByteName "jschar list"

fun name_length :: "PropertyName \<Rightarrow> nat" where
  "name_length (Latin1Name cs) = length cs"
| "name_length (TwoByteName cs) = length cs"

fun hasLatin1Chars :: "PropertyName \<Rightarrow> bool" where
  "hasLatin1Chars (Latin1Name cs) = True"
| "hasLatin1Chars (TwoByteName cs) = False"

text \<open>
  The table records. Their class declarations are in \<^verbatim>\<open>AsmJSModule.h\<close>, which is not
  among the sources; the fields are the ones \<^verbatim>\<open>AsmJSModule.cpp\<close> reads and section 3 of
  the specification lists. A \<^verbatim>\<open>pod\<close> member that this file copies but never inspects
  (\<^verbatim>\<open>Global::pod\<close>, \<^verbatim>\<open>ExportedFunction::pod\<close>) is kept as its object representation, a
  byte list of \<^verbatim>\<open>sizeof(pod)\<close> bytes. An \<^verbatim>\<open>AsmJSCoercion\<close> is its 32-bit enum value.
\<close>

record Global =
  g_pod :: "byte list"
  g_name :: "PropertyName option"

record Exit =
  ffiIndex :: u32
  globalDataOffset :: u32
  interpCodeOffset :: u32
  ionCodeOffset :: u32

type_synonym AsmJSCoercion = u32

record ExportedFunction =
  ef_name :: "PropertyName option"
  maybeFieldName :: "PropertyName option"
  argCoercions :: "AsmJSCoercion list"
  ef_pod :: "byte list"

record FuncPtrTable =
  fpt_globalDataOffset :: u32
  numElems :: u32

record AsmJSHeapAccess =
  ha_offset :: u32
  cmpDelta :: byte
  opLength :: byte

datatype RelativeLinkKind = RawPointer | CodeLabel | InstructionImmediate

record RelativeLink =
  rl_kind :: RelativeLinkKind
  patchAtOffset :: u32
  targetOffset :: u32

definition isRawPointerPatch :: "RelativeLink \<Rightarrow> bool" where
  "isRawPointerPatch link = (rl_kind link = RawPointer)"

record StaticLinkData =
  interruptExitOffset :: u32
  relativeLinks :: "RelativeLink list"
  absoluteLinks :: "u32 list list"

text \<open>
  \<^verbatim>\<open>AsmJSModule::pod\<close>: the members this file reads or writes. Byte counts are
  \<^verbatim>\<open>size_t\<close> in the source and natural numbers here.
\<close>

record Pod =
  funcPtrTableAndExitBytes :: nat
  functionBytes :: nat
  codeBytes :: nat
  totalBytes :: nat
  minHeapLength :: u32
  numGlobalVars :: u32
  srcLength :: u32
  srcLengthWithRightBrace :: u32
  strict :: bool
  usesSignalHandlers :: bool

text \<open>\<^verbatim>\<open>ArrayBufferObject\<close>, as far as the module looks at it. The records that hold
  pointers take the pointer type \<open>'ptr\<close> as a parameter; the operations use them at
  \<open>'p word\<close>.\<close>

record 'ptr ArrayBufferObject =
  dataPointer :: "'ptr"
  byteLength :: u32

record 'ptr AsmJSModule =
  pod :: Pod
  srcStart :: u32
  srcBodyStart :: u32
  scriptSource :: nat
  globalArgumentName :: "PropertyName option"
  importArgumentName :: "PropertyName option"
  bufferArgumentName :: "PropertyName option"
  code :: "'ptr"
  interruptExit :: "'ptr"
  globals :: "Global list"
  exits :: "Exit list"
  exports :: "ExportedFunction list"
  callSites :: "CallSite list"
  codeRanges :: "CodeRange list"
  funcPtrTables :: "FuncPtrTable list"
  builtinThunkOffsets :: "u32 list"
  names :: "PropertyName option list"
  heapAccesses :: "AsmJSHeapAccess list"
  numFunctionCounts :: nat
  staticLinkData :: StaticLinkData
  maybeHeap :: "'ptr ArrayBufferObject option"
  dynamicallyLinked :: bool
  loadedFromCache :: bool
  profilingEnabled :: bool
  codeIsProtected :: bool
  profilingLabels :: "(PropertyName option \<times> u32) option list"

text \<open>
  The memory outside the module object. \<open>regions\<close> maps the base address of each live
  mapping made by \<^verbatim>\<open>AllocateExecutableMemory\<close> to its bytes; a module refers to its image
  only through the pointer \<open>code\<close>. \<open>mmap_tape\<close> lists the addresses the operating system
  will hand out next (exhausted: the mapping call fails). \<open>malloc_ok n\<close> tells whether the
  system allocator grants a vector of \<open>n\<close> elements.
\<close>

record 'ptr store =
  regions :: "'ptr \<Rightarrow> byte list option"
  mmap_tape :: "'ptr list"
  malloc_ok :: "nat \<Rightarrow> bool"

definition isFinished :: "'p::len word AsmJSModule \<Rightarrow> bool" where
  "isFinished m = (code m \<noteq> 0)"







text \<open>
  The constructor \<^verbatim>\<open>AsmJSModule::AsmJSModule\<close>. \<^verbatim>\<open>AsmJSAllocationGranularity\<close> is declared
  with the assembler (4096 in this revision); \<^verbatim>\<open>SIZE_MAX\<close> is that of the pointer width.
\<close>

definition AsmJSAllocationGranularity :: nat where
  "AsmJSAllocationGranularity = 4096"

definition AsmJSModule_new ::
  "nat \<Rightarrow> u32 \<Rightarrow> u32 \<Rightarrow> bool \<Rightarrow> bool \<Rightarrow> 'p::len word AsmJSModule" where
  "AsmJSModule_new src start bodyStart strictMode canUseSignalHandlers =
     \<lparr> pod = \<lparr> funcPtrTableAndExitBytes = 2 ^ LENGTH('p) - 1,
                functionBytes = 2 ^ 32 - 1,
                codeBytes = 0,
                totalBytes = 0,
                minHeapLength = of_nat AsmJSAllocationGranularity,
                numGlobalVars = 0,
                srcLength = 0,
                srcLengthWithRightBrace = 0,
                strict = strictMode,
                usesSignalHandlers = canUseSignalHandlers \<rparr>,
       srcStart = start,
       srcBodyStart = bodyStart,
       scriptSource = src,
       globalArgumentName = None,
       importArgumentName = None,
       bufferArgumentName = None,
       code = 0,
       interruptExit = 0,
       globals = [],
       exits = [],
       exports = [],
       callSites = [],
       codeRanges = [],
       funcPtrTables = [],
       builtinThunkOffsets = [],
       names = [],
       heapAccesses = [],
       numFunctionCounts = 0,
       staticLinkData = \<lparr> interruptExitOffset = 0, relativeLinks = [], absoluteLinks = [] \<rparr>,
       maybeHeap = None,
       dynamicallyLinked = False,
       loadedFromCache = False,
       profilingEnabled = False,
       codeIsProtected = False,
       profilingLabels = [] \<rparr>"

text \<open>
  The constructors of \<^verbatim>\<open>CodeRange\<close>. A member that a constructor leaves unset is 0 here.
  \<^verbatim>\<open>CodeRange(Kind, begin, end)\<close> serves \<^verbatim>\<open>Entry\<close> and \<^verbatim>\<open>Inline\<close>;
  \<^verbatim>\<open>CodeRange(nameIndex, lineNumber, labels)\<close> makes a function from the six label offsets
  \<^verbatim>\<open>begin, entry, profilingJump, profilingEpilogue, profilingReturn, end\<close>.
\<close>

definition CodeRange_plain :: "Kind \<Rightarrow> u32 \<Rightarrow> u32 \<Rightarrow> CodeRange" where
  "CodeRange_plain kind b e =
     \<lparr> cr_nameIndex = 0, cr_lineNumber = 0, cr_begin = b, cr_profilingReturn = 0, cr_end = e,
       cr_kind = kind, beginToEntry = 0, profilingJumpToProfilingReturn = 0,
       profilingEpilogueToProfilingReturn = 0, thunk_target = 0 \<rparr>"

definition setDeltas :: "u32 \<Rightarrow> u32 \<Rightarrow> u32 \<Rightarrow> CodeRange \<Rightarrow> CodeRange" where
  "setDeltas entryOff profilingJumpOff profilingEpilogueOff cr =
     cr \<lparr> beginToEntry := ucast (entryOff - cr_begin cr),
          profilingJumpToProfilingReturn := ucast (cr_profilingReturn cr - profilingJumpOff),
          profilingEpilogueToProfilingReturn := ucast (cr_profilingReturn cr - profilingEpilogueOff) \<rparr>"

definition CodeRange_function ::
  "u32 \<Rightarrow> u32 \<Rightarrow> u32 \<Rightarrow> u32 \<Rightarrow> u32 \<Rightarrow> u32 \<Rightarrow> u32 \<Rightarrow> u32 \<Rightarrow> CodeRange" where
  "CodeRange_function nameIndex lineNumber l_begin l_entry l_profilingJump l_profilingEpilogue
       l_profilingReturn l_end =
     setDeltas l_entry l_profilingJump l_profilingEpilogue
       \<lparr> cr_nameIndex = nameIndex, cr_lineNumber = lineNumber, cr_begin = l_begin,
         cr_profilingReturn = l_profilingReturn, cr_end = l_end,
         cr_kind = Function, beginToEntry = 0, profilingJumpToProfilingReturn = 0,
         profilingEpilogueToProfilingReturn = 0, thunk_target = 0 \<rparr>"

definition CodeRange_thunk :: "u32 \<Rightarrow> u32 \<Rightarrow> u32 \<Rightarrow> u32 \<Rightarrow> CodeRange" where
  "CodeRange_thunk builtin b profilingReturnOff e =
     \<lparr> cr_nameIndex = 0, cr_lineNumber = 0, cr_begin = b,
       cr_profilingReturn = profilingReturnOff, cr_end = e,
       cr_kind = Thunk, beginToEntry = 0, profilingJumpToProfilingReturn = 0,
       profilingEpilogueToProfilingReturn = 0, thunk_target = builtin \<rparr>"

section \<open>Allocation and \<^verbatim>\<open>finish\<close>\<close>

text \<open>
  The source is compiled for one code generator; the model covers the x86 family
  (\<^verbatim>\<open>JS_CODEGEN_X86\<close>, \<^verbatim>\<open>JS_CODEGEN_X64\<close>), where \<^verbatim>\<open>masm.actualOffset\<close> is the identity.
  The ARM and MIPS branches rest on the instruction encoders of those back ends.
\<close>

datatype Arch = X86 | X64



text \<open>\<^verbatim>\<open>sizeof(void*)\<close> for the pointer type of a module.\<close>

definition sizeof_ptr :: "'p::len word AsmJSModule \<Rightarrow> nat" where
  "sizeof_ptr m = word_bytes (code m)"



text \<open>
  The accessors of the global-data segment, which \<^verbatim>\<open>AsmJSModule.h\<close> declares: the
  segment follows the code (\<^verbatim>\<open>offsetOfGlobalData() == pod.codeBytes_\<close>), starts with the
  heap pointer, then holds the global variables (8 bytes each), then the function-pointer
  tables and the exit data.
\<close>

definition offsetOfGlobalData :: "'p::len word AsmJSModule \<Rightarrow> nat" where
  "offsetOfGlobalData m = codeBytes (pod m)"


text \<open>
  \<^verbatim>\<open>AllocateExecutableMemory\<close>: the anonymous mapping is zero-filled and disjoint from every
  live mapping; \<^verbatim>\<open>nullptr\<close> (the word 0) when the operating system refuses.
\<close>

definition AllocateExecutableMemory :: "'p::len word store \<Rightarrow> nat \<Rightarrow> 'p word \<times> 'p word store" where
  "AllocateExecutableMemory s nbytes =
     (case mmap_tape s of
        [] \<Rightarrow> (0, s)
      | a # t \<Rightarrow>
          if a = 0 \<or> regions s a \<noteq> None then (0, s \<lparr> mmap_tape := t \<rparr>)
          else (a, s \<lparr> regions := (regions s)(a \<mapsto> replicate nbytes 0), mmap_tape := t \<rparr>))"

text \<open>Writing and reading a run of bytes at an offset of an image. A write that would
  leave the image (undefined behaviour in the source) changes nothing here; the theorems
  assume the offsets the source asserts or its tables guarantee.\<close>

definition write_at :: "nat \<Rightarrow> byte list \<Rightarrow> byte list \<Rightarrow> byte list" where
  "write_at off bs img =
     (if off + length bs \<le> length img
      then take off img @ bs @ drop (off + length bs) img
      else img)"

definition read_at :: "nat \<Rightarrow> nat \<Rightarrow> byte list \<Rightarrow> byte list" where
  "read_at off n img = take n (drop off img)"











section \<open>Patching the image\<close>

text \<open>
  The outcomes of section 7 of the specification, with the two ways a call of this file
  can end abnormally: a failed \<^verbatim>\<open>JS_ASSERT\<close> (debug builds only) and a dereferenced
  \<^verbatim>\<open>nullptr\<close>.
\<close>

datatype error =
    AllocationError
  | InvalidHeapLength
  | CorruptCache
  | AssertionFailure
  | NullDereference
  | OutOfBoundsAccess

definition bindE :: "error + 'a \<Rightarrow> ('a \<Rightarrow> error + 'b) \<Rightarrow> error + 'b" where
  "bindE r f = (case r of Inl e \<Rightarrow> Inl e | Inr x \<Rightarrow> f x)"

text \<open>\<open>debug\<close> says whether the build defines \<^verbatim>\<open>DEBUG\<close>, in which case \<^verbatim>\<open>JS_ASSERT(cond)\<close>
  aborts the process when \<open>cond\<close> fails; in a release build it is no code at all.\<close>

definition JS_ASSERT :: "bool \<Rightarrow> bool \<Rightarrow> (error + 'a) \<Rightarrow> error + 'a" where
  "JS_ASSERT debug cond k = (if debug \<and> \<not> cond then Inl AssertionFailure else k)"

text \<open>A \<^verbatim>\<open>for\<close> loop over a table whose body may end the call.\<close>

fun foldE :: "('a \<Rightarrow> 's \<Rightarrow> error + 's) \<Rightarrow> 'a list \<Rightarrow> 's \<Rightarrow> error + 's" where
  "foldE f [] st = Inr st"
| "foldE f (x # xs) st = (case f x st of Inl e \<Rightarrow> Inl e | Inr st' \<Rightarrow> foldE f xs st')"

text \<open>
  The operation the module performs on its own image: the bytes of the mapping at
  \<open>code m\<close> are replaced. Without a mapping there (no finished module has that) nothing
  happens.
\<close>

definition modify_image ::
  "'p::len word AsmJSModule \<Rightarrow> (byte list \<Rightarrow> byte list) \<Rightarrow> 'p word store \<Rightarrow> 'p word store" where
  "modify_image m f s =
     (case regions s (code m) of
        None \<Rightarrow> s
      | Some img \<Rightarrow> s \<lparr> regions := (regions s)(code m \<mapsto> f img) \<rparr>)"

definition modify_imageE ::
  "'p::len word AsmJSModule \<Rightarrow> (byte list \<Rightarrow> error + byte list) \<Rightarrow> 'p word store
     \<Rightarrow> error + 'p word store" where
  "modify_imageE m f s =
     (case regions s (code m) of
        None \<Rightarrow> Inr s
      | Some img \<Rightarrow>
          (case f img of
             Inl e \<Rightarrow> Inl e
           | Inr img' \<Rightarrow> Inr (s \<lparr> regions := (regions s)(code m \<mapsto> img') \<rparr>)))"

text \<open>
  Modelled from the spec: the patching primitives of the x86 assembler
  (\<^verbatim>\<open>X86Assembler::setPointer\<close>, \<^verbatim>\<open>getPointer\<close>, \<^verbatim>\<open>setInt32\<close>, \<^verbatim>\<open>setRel32\<close>,
  \<^verbatim>\<open>getRel32Target\<close>, \<^verbatim>\<open>Assembler::PatchDataWithValueCheck\<close>,
  \<^verbatim>\<open>Assembler::PatchInstructionImmediate\<close>), which are not among the sources. The
  specification describes them by their effect: a patch descriptor (offset, target) is
  applied by writing the target at the offset (sections 3, 4.1 and 9). On x86 the
  immediate of an instruction is its last field, so a patch location names the end of the
  immediate: the value occupies the bytes just before it. A location is given by its
  offset from \<^verbatim>\<open>code_\<close>; the values written are absolute addresses.
\<close>

definition write_ptr :: "nat \<Rightarrow> 'p::len word \<Rightarrow> byte list \<Rightarrow> byte list" where
  "write_ptr off v img = write_at off (word_to_bytes v) img"

definition read_ptr :: "nat \<Rightarrow> byte list \<Rightarrow> 'p::len word" where
  "read_ptr off img = word_of_bytes (read_at off ((LENGTH('p) + 7) div 8) img)"

definition write_before :: "nat \<Rightarrow> byte list \<Rightarrow> byte list \<Rightarrow> byte list" where
  "write_before off bs img = (if length bs \<le> off then write_at (off - length bs) bs img else img)"

definition read_before :: "nat \<Rightarrow> nat \<Rightarrow> byte list \<Rightarrow> byte list" where
  "read_before off n img = read_at (off - n) n img"

definition setPointer :: "nat \<Rightarrow> 'p::len word \<Rightarrow> byte list \<Rightarrow> byte list" where
  "setPointer off v img = write_before off (word_to_bytes v) img"

definition getPointer :: "nat \<Rightarrow> byte list \<Rightarrow> 'p::len word" where
  "getPointer off img = word_of_bytes (read_before off ((LENGTH('p) + 7) div 8) img)"

definition setInt32 :: "nat \<Rightarrow> u32 \<Rightarrow> byte list \<Rightarrow> byte list" where
  "setInt32 off v img = write_before off (word_to_bytes v) img"

definition getInt32 :: "nat \<Rightarrow> byte list \<Rightarrow> u32" where
  "getInt32 off img = word_of_bytes (read_before off 4 img)"

definition setRel32 :: "'p::len word \<Rightarrow> u32 \<Rightarrow> 'p word \<Rightarrow> byte list \<Rightarrow> byte list" where
  "setRel32 code_base fromOff to img =
     setInt32 (unat fromOff) (ucast (to - (code_base + ucast fromOff))) img"

definition getRel32Target :: "'p::len word \<Rightarrow> u32 \<Rightarrow> byte list \<Rightarrow> 'p word" where
  "getRel32Target code_base whereOff img =
     (code_base + ucast whereOff) + scast (getInt32 (unat whereOff) img)"

definition PatchDataWithValueCheck ::
  "bool \<Rightarrow> nat \<Rightarrow> 'p::len word \<Rightarrow> 'p word \<Rightarrow> byte list \<Rightarrow> error + byte list" where
  "PatchDataWithValueCheck debug off newData expectedData img =
     JS_ASSERT debug (getPointer off img = expectedData) (Inr (setPointer off newData img))"

definition PatchInstructionImmediate :: "nat \<Rightarrow> 'p::len word \<Rightarrow> byte list \<Rightarrow> byte list" where
  "PatchInstructionImmediate off imm img = write_ptr off imm img"

text \<open>
  \<^verbatim>\<open>AsmJSImmKind\<close>, in the order of the \<^verbatim>\<open>switch\<close> of \<^verbatim>\<open>AddressOf\<close> (the two ARM-only
  kinds left out); \<^verbatim>\<open>AsmJSImm_Limit\<close> is their number, and an absolute-link array has one
  bucket per kind. \<^verbatim>\<open>AddressOf\<close> itself, the resolver of section 4.1 of the specification,
  is a parameter of the operations that use it.
\<close>

datatype AsmJSImmKind =
    AsmJSImm_Runtime
  | AsmJSImm_RuntimeInterrupt
  | AsmJSImm_StackLimit
  | AsmJSImm_ReportOverRecursed
  | AsmJSImm_HandleExecutionInterrupt
  | AsmJSImm_InvokeFromAsmJS_Ignore
  | AsmJSImm_InvokeFromAsmJS_ToInt32
  | AsmJSImm_InvokeFromAsmJS_ToNumber
  | AsmJSImm_CoerceInPlace_ToInt32
  | AsmJSImm_CoerceInPlace_ToNumber
  | AsmJSImm_ToInt32
  | AsmJSImm_ModD
  | AsmJSImm_SinD
  | AsmJSImm_CosD
  | AsmJSImm_TanD
  | AsmJSImm_ASinD
  | AsmJSImm_ACosD
  | AsmJSImm_ATanD
  | AsmJSImm_CeilD
  | AsmJSImm_CeilF
  | AsmJSImm_FloorD
  | AsmJSImm_FloorF
  | AsmJSImm_ExpD
  | AsmJSImm_LogD
  | AsmJSImm_PowD
  | AsmJSImm_ATan2D

definition AsmJSImmKinds :: "AsmJSImmKind list" where
  "AsmJSImmKinds =
     [AsmJSImm_Runtime, AsmJSImm_RuntimeInterrupt, AsmJSImm_StackLimit,
      AsmJSImm_ReportOverRecursed, AsmJSImm_HandleExecutionInterrupt,
      AsmJSImm_InvokeFromAsmJS_Ignore, AsmJSImm_InvokeFromAsmJS_ToInt32,
      AsmJSImm_InvokeFromAsmJS_ToNumber, AsmJSImm_CoerceInPlace_ToInt32,
      AsmJSImm_CoerceInPlace_ToNumber, AsmJSImm_ToInt32, AsmJSImm_ModD, AsmJSImm_SinD,
      AsmJSImm_CosD, AsmJSImm_TanD, AsmJSImm_ASinD, AsmJSImm_ACosD, AsmJSImm_ATanD,
      AsmJSImm_CeilD, AsmJSImm_CeilF, AsmJSImm_FloorD, AsmJSImm_FloorF, AsmJSImm_ExpD,
      AsmJSImm_LogD, AsmJSImm_PowD, AsmJSImm_ATan2D]"

definition AsmJSImm_Limit :: nat where
  "AsmJSImm_Limit = length AsmJSImmKinds"


definition exitDatumOffset :: "'p::len word AsmJSModule \<Rightarrow> Exit \<Rightarrow> nat" where
  "exitDatumOffset m e = offsetOfGlobalData m + unat (globalDataOffset e)"

definition interpExitTrampoline :: "'p::len word AsmJSModule \<Rightarrow> Exit \<Rightarrow> 'p word" where
  "interpExitTrampoline m e = code m + ucast (interpCodeOffset e)"

definition ionExitTrampoline :: "'p::len word AsmJSModule \<Rightarrow> Exit \<Rightarrow> 'p word" where
  "ionExitTrampoline m e = code m + ucast (ionCodeOffset e)"

definition isStaticallyLinked :: "'p::len word AsmJSModule \<Rightarrow> bool" where
  "isStaticallyLinked m = (interruptExit m \<noteq> 0)"



definition patchOffsetAt :: "AsmJSHeapAccess \<Rightarrow> nat" where
  "patchOffsetAt a = unat (ha_offset a + ucast (opLength a))"


subsection \<open>\<^verbatim>\<open>staticallyLink\<close>\<close>

definition relativeLinkStep :: "'p::len word \<Rightarrow> RelativeLink \<Rightarrow> byte list \<Rightarrow> byte list" where
  "relativeLinkStep code_base link img =
     (let patchAt = unat (patchAtOffset link);
          target = code_base + ucast (targetOffset link)
      in if isRawPointerPatch link then write_ptr patchAt target img
         else PatchInstructionImmediate patchAt target img)"

definition absoluteLinkStep ::
  "bool \<Rightarrow> (AsmJSImmKind \<Rightarrow> 'p::len word) \<Rightarrow> AsmJSImmKind \<times> u32 list \<Rightarrow> byte list
     \<Rightarrow> error + byte list" where
  "absoluteLinkStep debug AddressOf io img =
     foldE (\<lambda>off. PatchDataWithValueCheck debug (unat off) (AddressOf (fst io)) (- 1)) (snd io) img"

definition exitDatumStep :: "'p::len word AsmJSModule \<Rightarrow> Exit \<Rightarrow> byte list \<Rightarrow> byte list" where
  "exitDatumStep m e img =
     write_ptr (exitDatumOffset m e + sizeof_ptr m) (0 :: 'p word)
       (write_ptr (exitDatumOffset m e) (interpExitTrampoline m e) img)"

definition staticallyLinkImage ::
  "bool \<Rightarrow> (AsmJSImmKind \<Rightarrow> 'p::len word) \<Rightarrow> 'p word AsmJSModule \<Rightarrow> byte list \<Rightarrow> error + byte list" where
  "staticallyLinkImage debug AddressOf m img =
     bindE (Inr (fold (relativeLinkStep (code m)) (relativeLinks (staticLinkData m)) img))
       (\<lambda>img1. bindE (foldE (absoluteLinkStep debug AddressOf)
                         (zip AsmJSImmKinds (absoluteLinks (staticLinkData m))) img1)
          (\<lambda>img2. Inr (fold (exitDatumStep m) (exits m) img2)))"

definition staticallyLink ::
  "bool \<Rightarrow> (AsmJSImmKind \<Rightarrow> 'p::len word) \<Rightarrow> 'p word AsmJSModule \<Rightarrow> 'p word store
     \<Rightarrow> error + 'p word AsmJSModule \<times> 'p word store" where
  "staticallyLink debug AddressOf m s =
     JS_ASSERT debug (isFinished m)
      (JS_ASSERT debug (\<not> isStaticallyLinked m)
        (let m' = m \<lparr> interruptExit := code m + ucast (interruptExitOffset (staticLinkData m)) \<rparr>
         in bindE (modify_imageE m (staticallyLinkImage debug AddressOf m) s)
              (\<lambda>s'. JS_ASSERT debug (isStaticallyLinked m') (Inr (m', s')))))"

subsection \<open>\<^verbatim>\<open>initHeap\<close> and \<^verbatim>\<open>restoreToInitialState\<close>\<close>





definition restoreAbsoluteLinkStep ::
  "(AsmJSImmKind \<Rightarrow> 'p::len word) \<Rightarrow> AsmJSImmKind \<times> u32 list \<Rightarrow> byte list \<Rightarrow> error + byte list" where
  "restoreAbsoluteLinkStep AddressOf io img =
     foldE (\<lambda>off. PatchDataWithValueCheck True (unat off) (- 1) (AddressOf (fst io))) (snd io) img"

definition restoreHeapStepX86 ::
  "bool \<Rightarrow> 'p::len word ArrayBufferObject \<Rightarrow> AsmJSHeapAccess \<Rightarrow> byte list \<Rightarrow> error + byte list" where
  "restoreHeapStepX86 debug prevBuffer access img =
     (let ptrBase = dataPointer prevBuffer;
          addr = patchOffsetAt access;
          ptr = (getPointer addr img :: 'p word)
      in JS_ASSERT debug (ptrBase \<le> ptr) (Inr (setPointer addr (ptr - ptrBase) img)))"

definition restoreToInitialStateImage ::
  "Arch \<Rightarrow> bool \<Rightarrow> (AsmJSImmKind \<Rightarrow> 'p::len word) \<Rightarrow> 'p word ArrayBufferObject option
     \<Rightarrow> 'p word AsmJSModule \<Rightarrow> byte list \<Rightarrow> error + byte list" where
  "restoreToInitialStateImage arch debug AddressOf maybePrevBuffer m img =
     bindE (if debug
            then foldE (restoreAbsoluteLinkStep AddressOf)
                   (zip AsmJSImmKinds (absoluteLinks (staticLinkData m))) img
            else Inr img)
       (\<lambda>img1. case maybePrevBuffer of
                  None \<Rightarrow> Inr img1
                | Some prevBuffer \<Rightarrow>
                    (case arch of
                       X86 \<Rightarrow> foldE (restoreHeapStepX86 debug prevBuffer) (heapAccesses m) img1
                     | X64 \<Rightarrow> Inr img1))"

definition restoreToInitialState ::
  "Arch \<Rightarrow> bool \<Rightarrow> (AsmJSImmKind \<Rightarrow> 'p::len word) \<Rightarrow> 'p word ArrayBufferObject option
     \<Rightarrow> 'p word AsmJSModule \<Rightarrow> 'p word store \<Rightarrow> error + 'p word store" where
  "restoreToInitialState arch debug AddressOf maybePrevBuffer m s =
     modify_imageE m (restoreToInitialStateImage arch debug AddressOf maybePrevBuffer m) s"

section \<open>Patch sites\<close>

text \<open>
  A patch site is a run of bytes of the image, given by its offset and length. A local
  patch rewrites the bytes of one site as a function of what the site holds; the loops of
  \<^verbatim>\<open>staticallyLink\<close> and \<^verbatim>\<open>setProfilingEnabled\<close> are sequences of local patches. The code
  generator emits every patchable immediate and every global-data slot as bytes of its
  own, so the sites of a module lie inside the image and do not overlap.
\<close>

type_synonym site = "nat \<times> nat"
type_synonym patch = "nat \<times> nat \<times> (byte list \<Rightarrow> error + byte list)"

definition site_disjoint :: "site \<Rightarrow> site \<Rightarrow> bool" where
  "site_disjoint a b = (fst a + snd a \<le> fst b \<or> fst b + snd b \<le> fst a)"

definition sites_ok :: "nat \<Rightarrow> site list \<Rightarrow> bool" where
  "sites_ok n sites = (list_all (\<lambda>a. fst a + snd a \<le> n) sites \<and> sorted_wrt site_disjoint sites)"

definition patch_site :: "patch \<Rightarrow> site" where
  "patch_site p = (fst p, fst (snd p))"

definition apply_patch :: "patch \<Rightarrow> byte list \<Rightarrow> error + byte list" where
  "apply_patch p img =
     (case snd (snd p) (read_at (fst p) (fst (snd p)) img) of
        Inl e \<Rightarrow> Inl e
      | Inr bs \<Rightarrow> Inr (write_at (fst p) bs img))"

definition run_patches :: "patch list \<Rightarrow> byte list \<Rightarrow> error + byte list" where
  "run_patches ps img = foldE apply_patch ps img"

text \<open>The sites \<^verbatim>\<open>staticallyLink\<close> writes: the pointer at each relative link's
  \<^verbatim>\<open>patchAtOffset\<close>, the pointer that ends at each absolute link's offset, and the
  \<^verbatim>\<open>ExitDatum\<close> (two pointers) of each exit.\<close>

definition relativeLinkSites :: "'p::len word AsmJSModule \<Rightarrow> site list" where
  "relativeLinkSites m =
     map (\<lambda>l. (unat (patchAtOffset l), sizeof_ptr m)) (relativeLinks (staticLinkData m))"

definition absoluteLinkOffsets :: "'p::len word AsmJSModule \<Rightarrow> (AsmJSImmKind \<times> u32) list" where
  "absoluteLinkOffsets m =
     concat (map (\<lambda>io. map (Pair (fst io)) (snd io))
               (zip AsmJSImmKinds (absoluteLinks (staticLinkData m))))"

definition absoluteLinkSites :: "'p::len word AsmJSModule \<Rightarrow> site list" where
  "absoluteLinkSites m =
     map (\<lambda>ko. (unat (snd ko) - sizeof_ptr m, sizeof_ptr m)) (absoluteLinkOffsets m)"

definition exitDatumSites :: "'p::len word AsmJSModule \<Rightarrow> site list" where
  "exitDatumSites m = map (\<lambda>e. (exitDatumOffset m e, 2 * sizeof_ptr m)) (exits m)"

definition staticLinkSites :: "'p::len word AsmJSModule \<Rightarrow> site list" where
  "staticLinkSites m = relativeLinkSites m @ absoluteLinkSites m @ exitDatumSites m"

definition staticLinkSitesOk :: "'p::len word AsmJSModule \<Rightarrow> nat \<Rightarrow> bool" where
  "staticLinkSitesOk m n =
     (sites_ok n (staticLinkSites m) \<and>
      list_all (\<lambda>ko. sizeof_ptr m \<le> unat (snd ko)) (absoluteLinkOffsets m))"

text \<open>The three loops of \<^verbatim>\<open>staticallyLink\<close> as local patches, for the proofs.\<close>

definition relativeLinkPatch :: "'p::len word AsmJSModule \<Rightarrow> RelativeLink \<Rightarrow> patch" where
  "relativeLinkPatch m l =
     (unat (patchAtOffset l), sizeof_ptr m,
      \<lambda>held. Inr (word_to_bytes (code m + ucast (targetOffset l))))"

definition absoluteLinkPatch ::
  "bool \<Rightarrow> (AsmJSImmKind \<Rightarrow> 'p::len word) \<Rightarrow> 'p word AsmJSModule \<Rightarrow> AsmJSImmKind \<times> u32 \<Rightarrow> patch" where
  "absoluteLinkPatch debug AddressOf m ko =
     (unat (snd ko) - sizeof_ptr m, sizeof_ptr m,
      \<lambda>held. JS_ASSERT debug ((word_of_bytes held :: 'p word) = - 1)
                (Inr (word_to_bytes (AddressOf (fst ko)))))"

definition exitDatumPatch :: "'p::len word AsmJSModule \<Rightarrow> Exit \<Rightarrow> patch" where
  "exitDatumPatch m e =
     (exitDatumOffset m e, 2 * sizeof_ptr m,
      \<lambda>held. Inr (word_to_bytes (interpExitTrampoline m e) @ word_to_bytes (0 :: 'p word)))"

definition staticLinkPatches ::
  "bool \<Rightarrow> (AsmJSImmKind \<Rightarrow> 'p::len word) \<Rightarrow> 'p word AsmJSModule \<Rightarrow> patch list" where
  "staticLinkPatches debug AddressOf m =
     map (relativeLinkPatch m) (relativeLinks (staticLinkData m)) @
     map (absoluteLinkPatch debug AddressOf m) (absoluteLinkOffsets m) @
     map (exitDatumPatch m) (exits m)"

section \<open>The cache codec\<close>

text \<open>
  A write cursor is the run of bytes written so far: \<^verbatim>\<open>WriteBytes(dst, src, n)\<close> appends the
  \<open>n\<close> bytes and the returned pointer is the longer run. A read cursor is the run of bytes
  still to be read. The source never checks a read against the end of the entry; a read
  past the end (undefined behaviour there) is \<open>OutOfBoundsAccess\<close> here. A \<^verbatim>\<open>nullptr\<close>
  cursor, returned after a failed allocation, is \<open>AllocationError\<close>.
\<close>

definition WriteBytes :: "byte list \<Rightarrow> byte list \<Rightarrow> byte list" where
  "WriteBytes dst src = dst @ src"

definition ReadBytes :: "byte list \<Rightarrow> nat \<Rightarrow> error + byte list \<times> byte list" where
  "ReadBytes src nbytes =
     (if nbytes \<le> length src then Inr (take nbytes src, drop nbytes src)
      else Inl OutOfBoundsAccess)"

definition WriteScalar :: "byte list \<Rightarrow> 'a::len word \<Rightarrow> byte list" where
  "WriteScalar dst t = WriteBytes dst (word_to_bytes t)"

definition ReadScalar32 :: "byte list \<Rightarrow> error + u32 \<times> byte list" where
  "ReadScalar32 src = bindE (ReadBytes src 4) (\<lambda>r. Inr (word_of_bytes (fst r), snd r))"

text \<open>\<open>chunksN sz n bs\<close>: the first \<open>n\<close> records of \<open>sz\<close> bytes each.\<close>

fun chunksN :: "nat \<Rightarrow> nat \<Rightarrow> 'a list \<Rightarrow> 'a list list" where
  "chunksN sz 0 bs = []"
| "chunksN sz (Suc n) bs = take sz bs # chunksN sz n (drop sz bs)"

subsection \<open>Names\<close>

definition SerializedNameSize :: "PropertyName option \<Rightarrow> nat" where
  "SerializedNameSize name =
     4 + (case name of
            None \<Rightarrow> 0
          | Some n \<Rightarrow> name_length n * (if hasLatin1Chars n then 1 else 2))"

fun name_chars :: "PropertyName \<Rightarrow> nat \<Rightarrow> byte list" where
  "name_chars (Latin1Name cs) n = take n cs"
| "name_chars (TwoByteName cs) n = concat (map word_to_bytes (take n cs))"

definition SerializeName :: "byte list \<Rightarrow> PropertyName option \<Rightarrow> byte list" where
  "SerializeName cursor name =
     (case name of
        Some n \<Rightarrow>
          (let len = (of_nat (name_length n) :: u32);
               lengthAndEncoding = push_bit 1 len OR (if hasLatin1Chars n then 1 else 0)
           in WriteBytes (WriteScalar cursor lengthAndEncoding) (name_chars n (unat len)))
      | None \<Rightarrow> WriteScalar cursor (0 :: u32))"

text \<open>\<^verbatim>\<open>DeserializeChars\<close>: the temporary vector and the atom are allocations that may
  fail; \<^verbatim>\<open>AtomizeChars\<close> yields the atom of the characters read.\<close>

definition DeserializeChars ::
  "(nat \<Rightarrow> bool) \<Rightarrow> bool \<Rightarrow> byte list \<Rightarrow> nat \<Rightarrow> error + PropertyName option \<times> byte list" where
  "DeserializeChars ok latin1 cursor len =
     (if \<not> ok len then Inl AllocationError
      else bindE (ReadBytes cursor (len * (if latin1 then 1 else 2)))
             (\<lambda>r. Inr (Some (if latin1 then Latin1Name (fst r)
                              else TwoByteName (map word_of_bytes (chunksN 2 len (fst r)))),
                        snd r)))"

definition DeserializeName ::
  "(nat \<Rightarrow> bool) \<Rightarrow> byte list \<Rightarrow> error + PropertyName option \<times> byte list" where
  "DeserializeName ok cursor =
     bindE (ReadScalar32 cursor)
       (\<lambda>r. let lengthAndEncoding = fst r;
                 len = drop_bit 1 lengthAndEncoding
             in if len = 0 then Inr (None, snd r)
                else DeserializeChars ok (lengthAndEncoding AND 1 \<noteq> 0) (snd r) (unat len))"

subsection \<open>Vectors\<close>

definition SerializedVectorSize :: "('a \<Rightarrow> nat) \<Rightarrow> 'a list \<Rightarrow> nat" where
  "SerializedVectorSize serializedSize vec = fold (\<lambda>x sz. sz + serializedSize x) vec 4"

definition SerializeVector :: "(byte list \<Rightarrow> 'a \<Rightarrow> byte list) \<Rightarrow> byte list \<Rightarrow> 'a list \<Rightarrow> byte list" where
  "SerializeVector serialize_elem cursor vec =
     fold (\<lambda>x c. serialize_elem c x) vec (WriteScalar cursor (of_nat (length vec) :: u32))"

fun DeserializeElems ::
  "(byte list \<Rightarrow> error + 'a \<times> byte list) \<Rightarrow> nat \<Rightarrow> byte list \<Rightarrow> error + 'a list \<times> byte list" where
  "DeserializeElems deserialize_elem 0 cursor = Inr ([], cursor)"
| "DeserializeElems deserialize_elem (Suc n) cursor =
     bindE (deserialize_elem cursor)
       (\<lambda>r. bindE (DeserializeElems deserialize_elem n (snd r))
               (\<lambda>rs. Inr (fst r # fst rs, snd rs)))"

definition DeserializeVector ::
  "(nat \<Rightarrow> bool) \<Rightarrow> (byte list \<Rightarrow> error + 'a \<times> byte list) \<Rightarrow> byte list
     \<Rightarrow> error + 'a list \<times> byte list" where
  "DeserializeVector ok deserialize_elem cursor =
     bindE (ReadScalar32 cursor)
       (\<lambda>r. if \<not> ok (unat (fst r)) then Inl AllocationError
             else DeserializeElems deserialize_elem (unat (fst r)) (snd r))"

definition SerializedPodVectorSize :: "nat \<Rightarrow> 'a list \<Rightarrow> nat" where
  "SerializedPodVectorSize sizeof_T vec = 4 + length vec * sizeof_T"

definition SerializePodVector :: "('a \<Rightarrow> byte list) \<Rightarrow> byte list \<Rightarrow> 'a list \<Rightarrow> byte list" where
  "SerializePodVector bytes_of cursor vec =
     WriteBytes (WriteScalar cursor (of_nat (length vec) :: u32)) (concat (map bytes_of vec))"

definition DeserializePodVector ::
  "(nat \<Rightarrow> bool) \<Rightarrow> (byte list \<Rightarrow> 'a) \<Rightarrow> nat \<Rightarrow> byte list \<Rightarrow> error + 'a list \<times> byte list" where
  "DeserializePodVector ok of_bytes sizeof_T cursor =
     bindE (ReadScalar32 cursor)
       (\<lambda>r. if \<not> ok (unat (fst r)) then Inl AllocationError
             else bindE (ReadBytes (snd r) (unat (fst r) * sizeof_T))
                    (\<lambda>q. Inr (map of_bytes (chunksN sizeof_T (unat (fst r)) (fst q)), snd q)))"

subsection \<open>Object representations\<close>

text \<open>
  Modelled from the spec: the object representation of the plain-old-data records, whose
  class declarations are not among the sources. Section 4.5 of the specification has them
  written "with no per-record transformation"; the model lays the members out in
  declaration order, little-endian, a 32-bit word for each enum, one byte for each
  \<^verbatim>\<open>bool\<close> and \<^verbatim>\<open>uint8_t\<close>, \<^verbatim>\<open>size_t\<close> in pointer width. \<^verbatim>\<open>sizeof(Global::pod)\<close> and
  \<^verbatim>\<open>sizeof(ExportedFunction::pod)\<close> are the lengths of those two opaque members.
\<close>

definition bool_byte :: "bool \<Rightarrow> byte" where
  "bool_byte b = (if b then 1 else 0)"

definition sizeof_Global_pod :: nat where
  "sizeof_Global_pod = 24"

definition sizeof_ExportedFunction_pod :: nat where
  "sizeof_ExportedFunction_pod = 16"

definition Exit_bytes :: "Exit \<Rightarrow> byte list" where
  "Exit_bytes e =
     word_to_bytes (ffiIndex e) @ word_to_bytes (globalDataOffset e) @
     word_to_bytes (interpCodeOffset e) @ word_to_bytes (ionCodeOffset e)"

definition Exit_of_bytes :: "byte list \<Rightarrow> Exit" where
  "Exit_of_bytes bs =
     \<lparr> ffiIndex = word_of_bytes (read_at 0 4 bs),
       globalDataOffset = word_of_bytes (read_at 4 4 bs),
       interpCodeOffset = word_of_bytes (read_at 8 4 bs),
       ionCodeOffset = word_of_bytes (read_at 12 4 bs) \<rparr>"

definition sizeof_Exit :: nat where
  "sizeof_Exit = 16"

fun CallSiteKind_code :: "CallSiteKind \<Rightarrow> u32" where
  "CallSiteKind_code Relative = 0"
| "CallSiteKind_code External = 1"

definition CallSiteKind_of_code :: "u32 \<Rightarrow> CallSiteKind" where
  "CallSiteKind_of_code w = (if w = 0 then Relative else External)"

definition CallSite_bytes :: "CallSite \<Rightarrow> byte list" where
  "CallSite_bytes c =
     word_to_bytes (returnAddressOffset c) @ word_to_bytes (CallSiteKind_code (cs_kind c))"

definition CallSite_of_bytes :: "byte list \<Rightarrow> CallSite" where
  "CallSite_of_bytes bs =
     \<lparr> returnAddressOffset = word_of_bytes (read_at 0 4 bs),
       cs_kind = CallSiteKind_of_code (word_of_bytes (read_at 4 4 bs)) \<rparr>"

definition sizeof_CallSite :: nat where
  "sizeof_CallSite = 8"

fun Kind_code :: "Kind \<Rightarrow> byte" where
  "Kind_code Function = 0"
| "Kind_code Entry = 1"
| "Kind_code Inline = 2"
| "Kind_code Thunk = 3"

definition Kind_of_code :: "byte \<Rightarrow> Kind" where
  "Kind_of_code b = (if b = 0 then Function else if b = 1 then Entry else if b = 2 then Inline else Thunk)"

definition CodeRange_bytes :: "CodeRange \<Rightarrow> byte list" where
  "CodeRange_bytes cr =
     word_to_bytes (cr_nameIndex cr) @ word_to_bytes (cr_lineNumber cr) @
     word_to_bytes (cr_begin cr) @ word_to_bytes (cr_profilingReturn cr) @
     word_to_bytes (cr_end cr) @
     [Kind_code (cr_kind cr), beginToEntry cr, profilingJumpToProfilingReturn cr,
      profilingEpilogueToProfilingReturn cr] @
     word_to_bytes (thunk_target cr)"

definition CodeRange_of_bytes :: "byte list \<Rightarrow> CodeRange" where
  "CodeRange_of_bytes bs =
     \<lparr> cr_nameIndex = word_of_bytes (read_at 0 4 bs),
       cr_lineNumber = word_of_bytes (read_at 4 4 bs),
       cr_begin = word_of_bytes (read_at 8 4 bs),
       cr_profilingReturn = word_of_bytes (read_at 12 4 bs),
       cr_end = word_of_bytes (read_at 16 4 bs),
       cr_kind = Kind_of_code (bs ! 20),
       beginToEntry = bs ! 21,
       profilingJumpToProfilingReturn = bs ! 22,
       profilingEpilogueToProfilingReturn = bs ! 23,
       thunk_target = word_of_bytes (read_at 24 4 bs) \<rparr>"

definition sizeof_CodeRange :: nat where
  "sizeof_CodeRange = 28"

definition FuncPtrTable_bytes :: "FuncPtrTable \<Rightarrow> byte list" where
  "FuncPtrTable_bytes t = word_to_bytes (fpt_globalDataOffset t) @ word_to_bytes (numElems t)"

definition FuncPtrTable_of_bytes :: "byte list \<Rightarrow> FuncPtrTable" where
  "FuncPtrTable_of_bytes bs =
     \<lparr> fpt_globalDataOffset = word_of_bytes (read_at 0 4 bs),
       numElems = word_of_bytes (read_at 4 4 bs) \<rparr>"

definition sizeof_FuncPtrTable :: nat where
  "sizeof_FuncPtrTable = 8"

definition AsmJSHeapAccess_bytes :: "AsmJSHeapAccess \<Rightarrow> byte list" where
  "AsmJSHeapAccess_bytes a = word_to_bytes (ha_offset a) @ [cmpDelta a, opLength a]"

definition AsmJSHeapAccess_of_bytes :: "byte list \<Rightarrow> AsmJSHeapAccess" where
  "AsmJSHeapAccess_of_bytes bs =
     \<lparr> ha_offset = word_of_bytes (read_at 0 4 bs), cmpDelta = bs ! 4, opLength = bs ! 5 \<rparr>"

definition sizeof_AsmJSHeapAccess :: nat where
  "sizeof_AsmJSHeapAccess = 6"

fun RelativeLinkKind_code :: "RelativeLinkKind \<Rightarrow> u32" where
  "RelativeLinkKind_code RawPointer = 0"
| "RelativeLinkKind_code CodeLabel = 1"
| "RelativeLinkKind_code InstructionImmediate = 2"

definition RelativeLinkKind_of_code :: "u32 \<Rightarrow> RelativeLinkKind" where
  "RelativeLinkKind_of_code w =
     (if w = 0 then RawPointer else if w = 1 then CodeLabel else InstructionImmediate)"

definition RelativeLink_bytes :: "RelativeLink \<Rightarrow> byte list" where
  "RelativeLink_bytes l =
     word_to_bytes (RelativeLinkKind_code (rl_kind l)) @ word_to_bytes (patchAtOffset l) @
     word_to_bytes (targetOffset l)"

definition RelativeLink_of_bytes :: "byte list \<Rightarrow> RelativeLink" where
  "RelativeLink_of_bytes bs =
     \<lparr> rl_kind = RelativeLinkKind_of_code (word_of_bytes (read_at 0 4 bs)),
       patchAtOffset = word_of_bytes (read_at 4 4 bs),
       targetOffset = word_of_bytes (read_at 8 4 bs) \<rparr>"

definition sizeof_RelativeLink :: nat where
  "sizeof_RelativeLink = 12"

definition u32_of_bytes :: "byte list \<Rightarrow> u32" where
  "u32_of_bytes bs = word_of_bytes bs"

definition Pod_bytes :: "nat \<Rightarrow> Pod \<Rightarrow> byte list" where
  "Pod_bytes psize pd =
     le_bytes psize (funcPtrTableAndExitBytes pd) @ le_bytes psize (functionBytes pd) @
     le_bytes psize (codeBytes pd) @ le_bytes psize (totalBytes pd) @
     word_to_bytes (minHeapLength pd) @ word_to_bytes (numGlobalVars pd) @
     word_to_bytes (srcLength pd) @ word_to_bytes (srcLengthWithRightBrace pd) @
     [bool_byte (strict pd), bool_byte (usesSignalHandlers pd)]"

definition Pod_of_bytes :: "nat \<Rightarrow> byte list \<Rightarrow> Pod" where
  "Pod_of_bytes psize bs =
     \<lparr> funcPtrTableAndExitBytes = le_value (read_at 0 psize bs),
       functionBytes = le_value (read_at psize psize bs),
       codeBytes = le_value (read_at (2 * psize) psize bs),
       totalBytes = le_value (read_at (3 * psize) psize bs),
       minHeapLength = word_of_bytes (read_at (4 * psize) 4 bs),
       numGlobalVars = word_of_bytes (read_at (4 * psize + 4) 4 bs),
       srcLength = word_of_bytes (read_at (4 * psize + 8) 4 bs),
       srcLengthWithRightBrace = word_of_bytes (read_at (4 * psize + 12) 4 bs),
       strict = (bs ! (4 * psize + 16) \<noteq> 0),
       usesSignalHandlers = (bs ! (4 * psize + 17) \<noteq> 0) \<rparr>"

definition sizeof_Pod :: "nat \<Rightarrow> nat" where
  "sizeof_Pod psize = 4 * psize + 18"

subsection \<open>Table records\<close>

definition Global_serialize :: "byte list \<Rightarrow> Global \<Rightarrow> byte list" where
  "Global_serialize cursor g =
     SerializeName (WriteBytes cursor (read_at 0 sizeof_Global_pod (g_pod g))) (g_name g)"

definition Global_serializedSize :: "Global \<Rightarrow> nat" where
  "Global_serializedSize g = sizeof_Global_pod + SerializedNameSize (g_name g)"

definition Global_deserialize :: "(nat \<Rightarrow> bool) \<Rightarrow> byte list \<Rightarrow> error + Global \<times> byte list" where
  "Global_deserialize ok cursor =
     bindE (ReadBytes cursor sizeof_Global_pod)
       (\<lambda>r. bindE (DeserializeName ok (snd r))
               (\<lambda>q. Inr (\<lparr> g_pod = fst r, g_name = fst q \<rparr>, snd q)))"

definition Exit_serialize :: "byte list \<Rightarrow> Exit \<Rightarrow> byte list" where
  "Exit_serialize cursor e = WriteBytes cursor (Exit_bytes e)"

definition Exit_serializedSize :: "Exit \<Rightarrow> nat" where
  "Exit_serializedSize e = sizeof_Exit"

definition Exit_deserialize :: "byte list \<Rightarrow> error + Exit \<times> byte list" where
  "Exit_deserialize cursor =
     bindE (ReadBytes cursor sizeof_Exit) (\<lambda>r. Inr (Exit_of_bytes (fst r), snd r))"

definition ExportedFunction_serialize :: "byte list \<Rightarrow> ExportedFunction \<Rightarrow> byte list" where
  "ExportedFunction_serialize cursor f =
     (let c1 = SerializeName cursor (ef_name f);
          c2 = SerializeName c1 (maybeFieldName f);
          c3 = SerializePodVector word_to_bytes c2 (argCoercions f)
      in WriteBytes c3 (read_at 0 sizeof_ExportedFunction_pod (ef_pod f)))"

definition ExportedFunction_serializedSize :: "ExportedFunction \<Rightarrow> nat" where
  "ExportedFunction_serializedSize f =
     SerializedNameSize (ef_name f) + SerializedNameSize (maybeFieldName f) + 4 +
     length (argCoercions f) * 4 + sizeof_ExportedFunction_pod"

definition ExportedFunction_deserialize ::
  "(nat \<Rightarrow> bool) \<Rightarrow> byte list \<Rightarrow> error + ExportedFunction \<times> byte list" where
  "ExportedFunction_deserialize ok cursor =
     bindE (DeserializeName ok cursor)
       (\<lambda>n. bindE (DeserializeName ok (snd n))
          (\<lambda>f. bindE (DeserializePodVector ok u32_of_bytes 4 (snd f))
             (\<lambda>a. bindE (ReadBytes (snd a) sizeof_ExportedFunction_pod)
                (\<lambda>r. Inr (\<lparr> ef_name = fst n, maybeFieldName = fst f, argCoercions = fst a,
                             ef_pod = fst r \<rparr>, snd r)))))"

text \<open>\<^verbatim>\<open>AbsoluteLinkArray\<close> is an array of \<^verbatim>\<open>AsmJSImm_Limit\<close> offset vectors. Its
  \<^verbatim>\<open>deserialize\<close> does not test the cursor inside the loop: after a vector that could not
  be allocated, the next round reads through \<^verbatim>\<open>nullptr\<close>.\<close>

definition AbsoluteLinkArray_serializedSize :: "u32 list list \<Rightarrow> nat" where
  "AbsoluteLinkArray_serializedSize array = fold (\<lambda>v sz. sz + SerializedPodVectorSize 4 v) array 0"

definition AbsoluteLinkArray_serialize :: "byte list \<Rightarrow> u32 list list \<Rightarrow> byte list" where
  "AbsoluteLinkArray_serialize cursor array =
     fold (\<lambda>v c. SerializePodVector word_to_bytes c v) array cursor"

fun AbsoluteLinkArray_deserializeLoop ::
  "(nat \<Rightarrow> bool) \<Rightarrow> nat \<Rightarrow> error + u32 list list \<times> byte list \<Rightarrow> error + u32 list list \<times> byte list" where
  "AbsoluteLinkArray_deserializeLoop ok 0 r = r"
| "AbsoluteLinkArray_deserializeLoop ok (Suc n) r =
     AbsoluteLinkArray_deserializeLoop ok n
       (case r of
          Inl e \<Rightarrow> if e = AllocationError then Inl NullDereference else Inl e
        | Inr ac \<Rightarrow>
            bindE (DeserializePodVector ok u32_of_bytes 4 (snd ac))
              (\<lambda>q. Inr (fst ac @ [fst q], snd q)))"

definition AbsoluteLinkArray_deserialize ::
  "(nat \<Rightarrow> bool) \<Rightarrow> byte list \<Rightarrow> error + u32 list list \<times> byte list" where
  "AbsoluteLinkArray_deserialize ok cursor =
     AbsoluteLinkArray_deserializeLoop ok AsmJSImm_Limit (Inr ([], cursor))"

definition StaticLinkData_serializedSize :: "StaticLinkData \<Rightarrow> nat" where
  "StaticLinkData_serializedSize d =
     4 + SerializedPodVectorSize sizeof_RelativeLink (relativeLinks d) +
     AbsoluteLinkArray_serializedSize (absoluteLinks d)"

definition StaticLinkData_serialize :: "byte list \<Rightarrow> StaticLinkData \<Rightarrow> byte list" where
  "StaticLinkData_serialize cursor d =
     (let c1 = WriteScalar cursor (interruptExitOffset d);
          c2 = SerializePodVector RelativeLink_bytes c1 (relativeLinks d)
      in AbsoluteLinkArray_serialize c2 (absoluteLinks d))"

definition StaticLinkData_deserialize ::
  "(nat \<Rightarrow> bool) \<Rightarrow> byte list \<Rightarrow> error + StaticLinkData \<times> byte list" where
  "StaticLinkData_deserialize ok cursor =
     bindE (ReadScalar32 cursor)
       (\<lambda>i. bindE (DeserializePodVector ok RelativeLink_of_bytes sizeof_RelativeLink (snd i))
          (\<lambda>r. bindE (AbsoluteLinkArray_deserialize ok (snd r))
             (\<lambda>a. Inr (\<lparr> interruptExitOffset = fst i, relativeLinks = fst r,
                          absoluteLinks = fst a \<rparr>, snd a))))"

subsection \<open>The module\<close>

text \<open>The image of a module in the memory; a module that owns none has no bytes.\<close>

definition image_of :: "'p::len word AsmJSModule \<Rightarrow> 'p word store \<Rightarrow> byte list" where
  "image_of m s = (case regions s (code m) of None \<Rightarrow> [] | Some img \<Rightarrow> img)"

definition serializedSize :: "'p::len word AsmJSModule \<Rightarrow> nat" where
  "serializedSize m =
     sizeof_Pod (sizeof_ptr m) +
     codeBytes (pod m) +
     SerializedNameSize (globalArgumentName m) +
     SerializedNameSize (importArgumentName m) +
     SerializedNameSize (bufferArgumentName m) +
     SerializedVectorSize Global_serializedSize (globals m) +
     SerializedVectorSize Exit_serializedSize (exits m) +
     SerializedVectorSize ExportedFunction_serializedSize (exports m) +
     SerializedPodVectorSize sizeof_CallSite (callSites m) +
     SerializedPodVectorSize sizeof_CodeRange (codeRanges m) +
     SerializedPodVectorSize sizeof_FuncPtrTable (funcPtrTables m) +
     SerializedPodVectorSize 4 (builtinThunkOffsets m) +
     SerializedVectorSize SerializedNameSize (names m) +
     SerializedPodVectorSize sizeof_AsmJSHeapAccess (heapAccesses m) +
     StaticLinkData_serializedSize (staticLinkData m)"

definition serialize :: "'p::len word AsmJSModule \<Rightarrow> 'p word store \<Rightarrow> byte list \<Rightarrow> byte list" where
  "serialize m s cursor0 =
     (let cursor = WriteBytes cursor0 (Pod_bytes (sizeof_ptr m) (pod m));
          cursor = WriteBytes cursor (read_at 0 (codeBytes (pod m)) (image_of m s));
          cursor = SerializeName cursor (globalArgumentName m);
          cursor = SerializeName cursor (importArgumentName m);
          cursor = SerializeName cursor (bufferArgumentName m);
          cursor = SerializeVector Global_serialize cursor (globals m);
          cursor = SerializeVector Exit_serialize cursor (exits m);
          cursor = SerializeVector ExportedFunction_serialize cursor (exports m);
          cursor = SerializePodVector CallSite_bytes cursor (callSites m);
          cursor = SerializePodVector CodeRange_bytes cursor (codeRanges m);
          cursor = SerializePodVector FuncPtrTable_bytes cursor (funcPtrTables m);
          cursor = SerializePodVector word_to_bytes cursor (builtinThunkOffsets m);
          cursor = SerializeVector SerializeName cursor (names m);
          cursor = SerializePodVector AsmJSHeapAccess_bytes cursor (heapAccesses m);
          cursor = StaticLinkData_serialize cursor (staticLinkData m)
      in cursor)"

text \<open>
  \<^verbatim>\<open>deserialize\<close> is one chain of \<^verbatim>\<open>&&\<close>: each link reads one member and the chain stops at
  the first \<^verbatim>\<open>nullptr\<close>. \<open>runSteps\<close> is that chain; it returns the cursor (or why there is
  none) and the module with the members read so far.
\<close>

fun runSteps ::
  "('m \<times> byte list \<Rightarrow> error + 'm \<times> byte list) list \<Rightarrow> 'm \<times> byte list \<Rightarrow> (error + byte list) \<times> 'm" where
  "runSteps [] mc = (Inr (snd mc), fst mc)"
| "runSteps (f # fs) mc =
     (case f mc of
        Inl e \<Rightarrow> (Inl e, fst mc)
      | Inr mc' \<Rightarrow> runSteps fs mc')"

definition readMember ::
  "(byte list \<Rightarrow> error + 'a \<times> byte list) \<Rightarrow> ('a \<Rightarrow> 'm \<Rightarrow> 'm) \<Rightarrow> 'm \<times> byte list
     \<Rightarrow> error + 'm \<times> byte list" where
  "readMember deserialize_member store_member mc =
     bindE (deserialize_member (snd mc)) (\<lambda>r. Inr (store_member (fst r) (fst mc), snd r))"

definition deserializeMembers ::
  "(nat \<Rightarrow> bool) \<Rightarrow> ('p::len word AsmJSModule \<times> byte list \<Rightarrow> error + 'p word AsmJSModule \<times> byte list) list" where
  "deserializeMembers ok =
     [readMember (DeserializeName ok) (\<lambda>v m. m \<lparr> globalArgumentName := v \<rparr>),
      readMember (DeserializeName ok) (\<lambda>v m. m \<lparr> importArgumentName := v \<rparr>),
      readMember (DeserializeName ok) (\<lambda>v m. m \<lparr> bufferArgumentName := v \<rparr>),
      readMember (DeserializeVector ok (Global_deserialize ok)) (\<lambda>v m. m \<lparr> globals := v \<rparr>),
      readMember (DeserializeVector ok Exit_deserialize) (\<lambda>v m. m \<lparr> exits := v \<rparr>),
      readMember (DeserializeVector ok (ExportedFunction_deserialize ok)) (\<lambda>v m. m \<lparr> exports := v \<rparr>),
      readMember (DeserializePodVector ok CallSite_of_bytes sizeof_CallSite)
        (\<lambda>v m. m \<lparr> callSites := v \<rparr>),
      readMember (DeserializePodVector ok CodeRange_of_bytes sizeof_CodeRange)
        (\<lambda>v m. m \<lparr> codeRanges := v \<rparr>),
      readMember (DeserializePodVector ok FuncPtrTable_of_bytes sizeof_FuncPtrTable)
        (\<lambda>v m. m \<lparr> funcPtrTables := v \<rparr>),
      readMember (DeserializePodVector ok u32_of_bytes 4) (\<lambda>v m. m \<lparr> builtinThunkOffsets := v \<rparr>),
      readMember (DeserializeVector ok (DeserializeName ok)) (\<lambda>v m. m \<lparr> names := v \<rparr>),
      readMember (DeserializePodVector ok AsmJSHeapAccess_of_bytes sizeof_AsmJSHeapAccess)
        (\<lambda>v m. m \<lparr> heapAccesses := v \<rparr>),
      readMember (StaticLinkData_deserialize ok) (\<lambda>v m. m \<lparr> staticLinkData := v \<rparr>)]"

text \<open>
  \<^verbatim>\<open>AsmJSModule::deserialize\<close>. When the image cannot be allocated the chain stops with
  the cursor it had after the header, which is not \<^verbatim>\<open>nullptr\<close>. Code bytes that would not
  fit the allocated image overflow it.
\<close>

definition deserialize ::
  "'p::len word AsmJSModule \<Rightarrow> 'p word store \<Rightarrow> byte list
     \<Rightarrow> (error + byte list) \<times> 'p word AsmJSModule \<times> 'p word store" where
  "deserialize m s cursor =
     (case ReadBytes cursor (sizeof_Pod (sizeof_ptr m)) of
        Inl e \<Rightarrow> (Inl e, m \<lparr> loadedFromCache := True \<rparr>, s)
      | Inr r1 \<Rightarrow>
          (let m1 = m \<lparr> pod := Pod_of_bytes (sizeof_ptr m) (fst r1) \<rparr>;
               (p, s1) = AllocateExecutableMemory s (totalBytes (pod m1));
               m2 = m1 \<lparr> code := p \<rparr>
           in if p = 0 then (Inr (snd r1), m2 \<lparr> loadedFromCache := True \<rparr>, s1)
              else
                (case ReadBytes (snd r1) (codeBytes (pod m2)) of
                   Inl e \<Rightarrow> (Inl e, m2 \<lparr> loadedFromCache := True \<rparr>, s1)
                 | Inr r2 \<Rightarrow>
                     if totalBytes (pod m2) < codeBytes (pod m2)
                     then (Inl OutOfBoundsAccess, m2 \<lparr> loadedFromCache := True \<rparr>, s1)
                     else
                       (let s2 = modify_image m2 (write_at 0 (fst r2)) s1;
                            (r, m3) = runSteps (deserializeMembers (malloc_ok s2)) (m2, snd r2)
                        in (r, m3 \<lparr> loadedFromCache := True \<rparr>, s2)))))"

text \<open>
  What the codec relies on. A name, if present, is not empty (asserted by
  \<^verbatim>\<open>SerializeName\<close>) and no longer than \<^verbatim>\<open>JSString::MAX_LENGTH\<close>, which a \<^verbatim>\<open>static_assert\<close>
  keeps within 31 bits. The two opaque \<^verbatim>\<open>pod\<close> members have their \<^verbatim>\<open>sizeof\<close>; the image holds
  the \<^verbatim>\<open>codeBytes\<close> bytes of code that are written.
\<close>

definition name_ok :: "PropertyName option \<Rightarrow> bool" where
  "name_ok name =
     (case name of None \<Rightarrow> True | Some n \<Rightarrow> 0 < name_length n \<and> name_length n < 2 ^ 31)"

definition Global_ok :: "Global \<Rightarrow> bool" where
  "Global_ok g = (length (g_pod g) = sizeof_Global_pod \<and> name_ok (g_name g))"

definition ExportedFunction_ok :: "ExportedFunction \<Rightarrow> bool" where
  "ExportedFunction_ok f =
     (length (ef_pod f) = sizeof_ExportedFunction_pod \<and> name_ok (ef_name f) \<and>
      name_ok (maybeFieldName f) \<and> length (argCoercions f) < 2 ^ 32)"

definition representable :: "'p::len word AsmJSModule \<Rightarrow> 'p word store \<Rightarrow> bool" where
  "representable m s =
     (codeBytes (pod m) \<le> length (image_of m s) \<and>
      name_ok (globalArgumentName m) \<and>
      name_ok (importArgumentName m) \<and>
      name_ok (bufferArgumentName m) \<and>
      list_all Global_ok (globals m) \<and>
      list_all ExportedFunction_ok (exports m) \<and>
      list_all name_ok (names m))"

text \<open>
  For the way back the counts must fit the 32-bit length prefixes, the \<^verbatim>\<open>size_t\<close> members
  of the header their width, the absolute-link array must have its \<^verbatim>\<open>AsmJSImm_Limit\<close>
  buckets, and the code must fit the image that \<^verbatim>\<open>totalBytes\<close> asks for.
\<close>

definition Pod_ok :: "nat \<Rightarrow> Pod \<Rightarrow> bool" where
  "Pod_ok psize pd =
     (funcPtrTableAndExitBytes pd < 256 ^ psize \<and> functionBytes pd < 256 ^ psize \<and>
      codeBytes pd < 256 ^ psize \<and> totalBytes pd < 256 ^ psize \<and>
      codeBytes pd \<le> totalBytes pd)"

definition serializable :: "'p::len word AsmJSModule \<Rightarrow> 'p word store \<Rightarrow> bool" where
  "serializable m s =
     (representable m s \<and>
      Pod_ok (sizeof_ptr m) (pod m) \<and>
      length (globals m) < 2 ^ 32 \<and>
      length (exits m) < 2 ^ 32 \<and>
      length (exports m) < 2 ^ 32 \<and>
      length (callSites m) < 2 ^ 32 \<and>
      length (codeRanges m) < 2 ^ 32 \<and>
      length (funcPtrTables m) < 2 ^ 32 \<and>
      length (builtinThunkOffsets m) < 2 ^ 32 \<and>
      length (names m) < 2 ^ 32 \<and>
      length (heapAccesses m) < 2 ^ 32 \<and>
      length (relativeLinks (staticLinkData m)) < 2 ^ 32 \<and>
      length (absoluteLinks (staticLinkData m)) = AsmJSImm_Limit \<and>
      list_all (\<lambda>v. length v < 2 ^ 32) (absoluteLinks (staticLinkData m)))"

subsection \<open>Cache admission\<close>

text \<open>
  \<^verbatim>\<open>MachineId\<close>: the CPU word of \<^verbatim>\<open>GetCPUID\<close> and the build identifier of the embedding.
\<close>

record MachineId =
  cpuId :: u32
  buildId :: "byte list"




definition MachineId_serializedSize :: "MachineId \<Rightarrow> nat" where
  "MachineId_serializedSize mid = 4 + SerializedPodVectorSize 1 (buildId mid)"















subsection \<open>Example modules\<close>










definition example_mapped64 :: "64 word store" where
  "example_mapped64 =
     \<lparr> regions = (\<lambda>a. if a = 0x20000 then Some (replicate 4096 0) else None),
       mmap_tape = [0x30000], malloc_ok = (\<lambda>n. True) \<rparr>"



text \<open>A finished 64-bit module before static linking: one raw-pointer link at offset 16
  to offset 32, one absolute link to the runtime ending at offset 48, and one exit whose
  datum is at global-data offset 8 (the code takes 64 bytes).\<close>

definition example_unlinked64 :: "64 word AsmJSModule" where
  "example_unlinked64 =
     (AsmJSModule_new 0 0 0 False False)
       \<lparr> pod := (pod (AsmJSModule_new 0 0 0 False False :: 64 word AsmJSModule))
                  \<lparr> funcPtrTableAndExitBytes := 16, functionBytes := 0,
                    codeBytes := 64, totalBytes := 4096 \<rparr>,
         code := 0x20000,
         exits := [\<lparr> ffiIndex = 0, globalDataOffset = 8, interpCodeOffset = 24,
                     ionCodeOffset = 28 \<rparr>],
         staticLinkData :=
           \<lparr> interruptExitOffset = 56,
             relativeLinks = [\<lparr> rl_kind = RawPointer, patchAtOffset = 16, targetOffset = 32 \<rparr>],
             absoluteLinks = [[48]] \<rparr> \<rparr>"

definition example_AddressOf :: "AsmJSImmKind \<Rightarrow> 64 word" where
  "example_AddressOf k = 0x7f0000"

text \<open>A finished 64-bit module with one entry of most tables, a Latin-1 and a two-byte
  argument name, and eight bytes of code; its image is the one mapped at \<open>0x20000\<close>.\<close>

definition example_cached64 :: "64 word AsmJSModule" where
  "example_cached64 =
     (AsmJSModule_new 0 0 0 False False)
       \<lparr> pod := (pod (AsmJSModule_new 0 0 0 False False :: 64 word AsmJSModule))
                  \<lparr> funcPtrTableAndExitBytes := 16, functionBytes := 0,
                    codeBytes := 8, totalBytes := 4096 \<rparr>,
         globalArgumentName := Some (Latin1Name [0x67]),
         bufferArgumentName := Some (TwoByteName [0x3b2]),
         code := 0x20000,
         globals := [\<lparr> g_pod = replicate 24 0, g_name = Some (Latin1Name [0x78]) \<rparr>],
         exits := [\<lparr> ffiIndex = 0, globalDataOffset = 8, interpCodeOffset = 0,
                     ionCodeOffset = 4 \<rparr>],
         exports := [\<lparr> ef_name = Some (Latin1Name [0x66]), maybeFieldName = None,
                       argCoercions = [0], ef_pod = replicate 16 0 \<rparr>],
         callSites := [\<lparr> returnAddressOffset = 4, cs_kind = Relative \<rparr>],
         codeRanges := [CodeRange_plain Entry 0 8],
         names := [Some (Latin1Name [0x66])],
         staticLinkData :=
           \<lparr> interruptExitOffset = 0, relativeLinks = [],
             absoluteLinks = replicate AsmJSImm_Limit [] \<rparr> \<rparr>"










section \<open>Properties of the symbol index\<close>







section \<open>Properties of \<^verbatim>\<open>finish\<close>\<close>








section \<open>Properties of \<^verbatim>\<open>initHeap\<close>\<close>

lemma JS_ASSERT_release [simp]: "JS_ASSERT False cond k = k"
  by (simp add: JS_ASSERT_def)

lemma JS_ASSERT_holds [simp]: "cond \<Longrightarrow> JS_ASSERT debug cond k = k"
  by (simp add: JS_ASSERT_def)

lemma JS_ASSERT_fails: "debug \<Longrightarrow> \<not> cond \<Longrightarrow> JS_ASSERT debug cond k = Inl AssertionFailure"
  by (simp add: JS_ASSERT_def)


lemma JS_ASSERT_Inr: "JS_ASSERT debug cond k = Inr x \<Longrightarrow> k = Inr x"
  by (auto simp: JS_ASSERT_def split: if_splits)









lemma word_bytes_64 [simp]: "word_bytes (w :: 64 word) = 8"
  by (simp add: word_bytes_def)

lemma word_bytes_32 [simp]: "word_bytes (w :: 32 word) = 4"
  by (simp add: word_bytes_def)




section \<open>Bytes, sites and local patches\<close>

lemma length_le_bytes [simp]: "length (le_bytes n v) = n"
  by (induction n arbitrary: v) auto

lemma le_value_le_bytes: "le_value (le_bytes n v) = v mod 256 ^ n"
proof (induction n arbitrary: v)
  case 0
  then show ?case by simp
next
  case (Suc n)
  have "unat (of_nat (v mod 256) :: byte) = v mod 256"
    by (simp add: unat_of_nat)
  then show ?case
    using Suc.IH[of "v div 256"] by (simp add: mod_mult2_eq)
qed

lemma length_word_to_bytes [simp]: "length (word_to_bytes (w :: 'a::len word)) = (LENGTH('a) + 7) div 8"
  by (simp add: word_to_bytes_def word_bytes_def)

lemma word_of_bytes_to_bytes [simp]: "word_of_bytes (word_to_bytes w) = (w :: 'a::len word)"
proof -
  define n where "n = (LENGTH('a) + 7) div 8"
  have "LENGTH('a) \<le> 8 * n" unfolding n_def by linarith
  then have "(2::nat) ^ LENGTH('a) \<le> 2 ^ (8 * n)" by (rule power_increasing) simp
  also have "\<dots> = 256 ^ n" by (simp add: power_mult)
  finally have "unat w < 256 ^ n"
    using unsigned_less[of w, where ?'a = nat] by linarith
  then show ?thesis
    by (simp add: word_of_bytes_def word_to_bytes_def word_bytes_def le_value_le_bytes n_def)
qed

lemma length_write_at [simp]: "length (write_at off bs img) = length img"
  by (simp add: write_at_def)

lemma read_at_write_at_same:
  "off + length bs \<le> length img \<Longrightarrow> read_at off (length bs) (write_at off bs img) = bs"
  by (simp add: write_at_def read_at_def)

lemma read_at_write_at_disjoint:
  assumes "o2 + n \<le> off \<or> off + length bs \<le> o2"
  shows "read_at o2 n (write_at off bs img) = read_at o2 n img"
proof (cases "off + length bs \<le> length img")
  case False
  then show ?thesis by (simp add: write_at_def)
next
  case True
  show ?thesis
  proof (rule nth_equalityI)
    show len: "length (read_at o2 n (write_at off bs img)) = length (read_at o2 n img)"
      by (simp add: read_at_def)
    fix i assume "i < length (read_at o2 n (write_at off bs img))"
    then have i: "i < n" "o2 + i < length img" by (auto simp: read_at_def)
    then show "read_at o2 n (write_at off bs img) ! i = read_at o2 n img ! i"
      using assms True
      by (auto simp: read_at_def write_at_def nth_append)
  qed
qed

lemma site_disjoint_sym: "site_disjoint a b = site_disjoint b a"
  by (auto simp: site_disjoint_def)

lemma foldE_append: "foldE f (xs @ ys) st = bindE (foldE f xs st) (foldE f ys)"
  by (induction xs arbitrary: st) (auto simp: bindE_def split: sum.splits)

lemma length_apply_patch: "apply_patch p img = Inr img' \<Longrightarrow> length img' = length img"
  by (auto simp: apply_patch_def split: sum.splits)

lemma run_patches_Cons:
  "run_patches (p # ps) img = bindE (apply_patch p img) (run_patches ps)"
  by (simp add: run_patches_def[abs_def] bindE_def)

lemma run_patches_effect:
  assumes "sorted_wrt site_disjoint (map patch_site ps)"
    and "\<forall>p \<in> set ps. fst p + fst (snd p) \<le> length img"
    and "\<forall>p \<in> set ps. \<forall>held bs. snd (snd p) held = Inr bs \<longrightarrow> length bs = fst (snd p)"
    and "run_patches ps img = Inr img'"
  shows "length img' = length img \<and>
         (\<forall>p \<in> set ps. snd (snd p) (read_at (fst p) (fst (snd p)) img)
              = Inr (read_at (fst p) (fst (snd p)) img')) \<and>
         (\<forall>st. (\<forall>p \<in> set ps. site_disjoint st (patch_site p)) \<longrightarrow>
              read_at (fst st) (snd st) img' = read_at (fst st) (snd st) img)"
  using assms
proof (induction ps arbitrary: img)
  case Nil
  then show ?case by (simp add: run_patches_def)
next
  case (Cons p ps)
  obtain off len f where p: "p = (off, len, f)" by (cases p)
  from Cons.prems(4) obtain bs where bs: "f (read_at off len img) = Inr bs"
    and rest: "run_patches ps (write_at off bs img) = Inr img'"
    by (auto simp: run_patches_Cons apply_patch_def bindE_def p split: sum.splits)
  have lbs: "length bs = len" using Cons.prems(3) bs by (auto simp: p)
  define img1 where "img1 = write_at off bs img"
  have len1: "length img1 = length img" by (simp add: img1_def)
  have inb: "off + len \<le> length img" using Cons.prems(2) by (simp add: p)
  have dis: "site_disjoint (off, len) (patch_site q)" if "q \<in> set ps" for q
    using Cons.prems(1) that by (auto simp: p patch_site_def)
  have same: "read_at (fst q) (fst (snd q)) img1 = read_at (fst q) (fst (snd q)) img"
    if "q \<in> set ps" for q
    unfolding img1_def
    by (rule read_at_write_at_disjoint)
       (use dis[OF that] lbs in \<open>auto simp: site_disjoint_def patch_site_def\<close>)
  have IH: "length img' = length img1 \<and>
           (\<forall>p \<in> set ps. snd (snd p) (read_at (fst p) (fst (snd p)) img1)
                = Inr (read_at (fst p) (fst (snd p)) img')) \<and>
           (\<forall>st. (\<forall>p \<in> set ps. site_disjoint st (patch_site p)) \<longrightarrow>
                read_at (fst st) (snd st) img' = read_at (fst st) (snd st) img1)"
  proof (rule Cons.IH)
    show "sorted_wrt site_disjoint (map patch_site ps)" using Cons.prems(1) by simp
    show "\<forall>p\<in>set ps. fst p + fst (snd p) \<le> length img1"
      using Cons.prems(2) by (simp add: len1)
    show "\<forall>p\<in>set ps. \<forall>held bs. snd (snd p) held = Inr bs \<longrightarrow> length bs = fst (snd p)"
      using Cons.prems(3) by simp
    show "run_patches ps img1 = Inr img'" using rest by (simp add: img1_def)
  qed
  then have r: "length img' = length img1"
    and at: "\<forall>p \<in> set ps. snd (snd p) (read_at (fst p) (fst (snd p)) img1)
                = Inr (read_at (fst p) (fst (snd p)) img')"
    and fr: "\<forall>st. (\<forall>p \<in> set ps. site_disjoint st (patch_site p)) \<longrightarrow>
                read_at (fst st) (snd st) img' = read_at (fst st) (snd st) img1"
    by blast+
  have headsite: "read_at off len img' = bs"
  proof -
    have "read_at off len img' = read_at off len img1"
      using fr[rule_format, of "(off, len)"] dis by simp
    also have "\<dots> = bs"
      unfolding img1_def using read_at_write_at_same[of off bs img] inb lbs by simp
    finally show ?thesis .
  qed
  have c3: "snd (snd q) (read_at (fst q) (fst (snd q)) img) = Inr (read_at (fst q) (fst (snd q)) img')"
    if "q \<in> set (p # ps)" for q
  proof (cases "q \<in> set ps")
    case True
    then show ?thesis using at same by simp
  next
    case False
    then have "q = p" using that by simp
    then show ?thesis using bs headsite by (simp add: p)
  qed
  have c4: "read_at (fst st) (snd st) img' = read_at (fst st) (snd st) img"
    if "\<forall>q \<in> set (p # ps). site_disjoint st (patch_site q)" for st
  proof -
    have "read_at (fst st) (snd st) img' = read_at (fst st) (snd st) img1"
      using fr that by simp
    also have "\<dots> = read_at (fst st) (snd st) img"
      unfolding img1_def
      by (rule read_at_write_at_disjoint)
         (use that lbs in \<open>auto simp: site_disjoint_def patch_site_def p\<close>)
    finally show ?thesis .
  qed
  show ?case
  proof (intro conjI ballI allI impI)
    show "length img' = length img" using r len1 by simp
    show "snd (snd q) (read_at (fst q) (fst (snd q)) img) = Inr (read_at (fst q) (fst (snd q)) img')"
      if "q \<in> set (p # ps)" for q by (rule c3[OF that])
    show "read_at (fst st) (snd st) img' = read_at (fst st) (snd st) img"
      if "\<forall>q \<in> set (p # ps). site_disjoint st (patch_site q)" for st by (rule c4[OF that])
  qed
qed

lemma run_patches_succeeds:
  assumes "sorted_wrt site_disjoint (map patch_site ps)"
    and "\<forall>p \<in> set ps. fst p + fst (snd p) \<le> length img"
    and "\<forall>p \<in> set ps. \<forall>held bs. snd (snd p) held = Inr bs \<longrightarrow> length bs = fst (snd p)"
    and "\<forall>p \<in> set ps. \<exists>bs. snd (snd p) (read_at (fst p) (fst (snd p)) img) = Inr bs"
  shows "\<exists>img'. run_patches ps img = Inr img'"
  using assms
proof (induction ps arbitrary: img)
  case Nil
  then show ?case by (simp add: run_patches_def)
next
  case (Cons p ps)
  obtain off len f where p: "p = (off, len, f)" by (cases p)
  from Cons.prems(4) obtain bs where bs: "f (read_at off len img) = Inr bs"
    by (auto simp: p)
  have lbs: "length bs = len" using Cons.prems(3) bs by (auto simp: p)
  define img1 where "img1 = write_at off bs img"
  have len1: "length img1 = length img" by (simp add: img1_def)
  have dis: "site_disjoint (off, len) (patch_site q)" if "q \<in> set ps" for q
    using Cons.prems(1) that by (auto simp: p patch_site_def)
  have same: "read_at (fst q) (fst (snd q)) img1 = read_at (fst q) (fst (snd q)) img"
    if "q \<in> set ps" for q
    unfolding img1_def
    by (rule read_at_write_at_disjoint)
       (use dis[OF that] lbs in \<open>auto simp: site_disjoint_def patch_site_def\<close>)
  have "\<exists>img'. run_patches ps img1 = Inr img'"
  proof (rule Cons.IH)
    show "sorted_wrt site_disjoint (map patch_site ps)" using Cons.prems(1) by simp
    show "\<forall>p\<in>set ps. fst p + fst (snd p) \<le> length img1"
      using Cons.prems(2) by (simp add: len1)
    show "\<forall>p\<in>set ps. \<forall>held bs. snd (snd p) held = Inr bs \<longrightarrow> length bs = fst (snd p)"
      using Cons.prems(3) by simp
    show "\<forall>p\<in>set ps. \<exists>bs. snd (snd p) (read_at (fst p) (fst (snd p)) img1) = Inr bs"
      using Cons.prems(4) same by simp
  qed
  then show ?case
    using bs by (simp add: run_patches_Cons apply_patch_def bindE_def p img1_def)
qed

lemma foldE_pure: "foldE (\<lambda>x st. Inr (g x st)) xs st = Inr (fold g xs st)"
  by (induction xs arbitrary: st) auto

lemma foldE_cong_inv:
  assumes "I st"
    and "\<And>x st. x \<in> set xs \<Longrightarrow> I st \<Longrightarrow> f x st = g x st"
    and "\<And>x st st'. x \<in> set xs \<Longrightarrow> I st \<Longrightarrow> g x st = Inr st' \<Longrightarrow> I st'"
  shows "foldE f xs st = foldE g xs st"
  using assms
proof (induction xs arbitrary: st)
  case Nil
  then show ?case by simp
next
  case (Cons x xs)
  have eq: "f x st = g x st" using Cons.prems by simp
  show ?case
  proof (cases "g x st")
    case (Inl e)
    then show ?thesis using eq by simp
  next
    case (Inr st')
    have I': "I st'" using Cons.prems(3)[of x st st'] Cons.prems(1) Inr by simp
    have "foldE f xs st' = foldE g xs st'"
    proof (rule Cons.IH[OF I'])
      show "f y t = g y t" if "y \<in> set xs" "I t" for y t
        using Cons.prems(2)[of y t] that by simp
      show "I t'" if "y \<in> set xs" "I t" "g y t = Inr t'" for y t t'
        using Cons.prems(3)[of y t t'] that by simp
    qed
    then show ?thesis using eq Inr by simp
  qed
qed

lemma foldE_nested:
  "foldE (\<lambda>io. foldE (h (fst io)) (snd io)) kos st
     = foldE (\<lambda>ko. h (fst ko) (snd ko)) (concat (map (\<lambda>io. map (Pair (fst io)) (snd io)) kos)) st"
proof (induction kos arbitrary: st)
  case Nil
  then show ?case by simp
next
  case (Cons io kos)
  have inner: "foldE (h (fst io)) (snd io) st
      = foldE (\<lambda>ko. h (fst ko) (snd ko)) (map (Pair (fst io)) (snd io)) st" for st
    by (induction "snd io" arbitrary: st io) (auto split: sum.splits)
  show ?case
    by (simp add: foldE_append inner bindE_def Cons.IH split: sum.splits)
qed

lemma foldE_map: "foldE f (map g xs) st = foldE (\<lambda>x. f (g x)) xs st"
  by (induction xs arbitrary: st) (auto split: sum.splits)

lemma write_at_append:
  assumes "off + length a + length b \<le> length img"
  shows "write_at (off + length a) b (write_at off a img) = write_at off (a @ b) img"
proof -
  have o: "off \<le> length img" using assms by simp
  define X where "X = take off img @ a @ drop (off + length a) img"
  have lenX: "length X = length img" using assms by (simp add: X_def)
  have w1: "write_at off a img = X" using assms by (simp add: write_at_def X_def)
  have t: "take (off + length a) X = take off img @ a"
    using o by (simp add: X_def)
  have d: "drop (off + length a + length b) X = drop (off + length a + length b) img"
  proof -
    have "drop (off + length a + length b) X
        = drop (length a + length b) (a @ drop (off + length a) img)"
      unfolding X_def using o by simp
    also have "\<dots> = drop (length b) (drop (off + length a) img)" by simp
    also have "\<dots> = drop (off + length a + length b) img" by (simp add: add.commute)
    finally show ?thesis .
  qed
  have "write_at (off + length a) b X = take (off + length a) X @ b @ drop (off + length a + length b) X"
    using assms lenX by (simp add: write_at_def)
  also have "\<dots> = take off img @ (a @ b) @ drop (off + length (a @ b)) img"
    unfolding t d by (simp add: add.assoc)
  also have "\<dots> = write_at off (a @ b) img"
    using assms by (simp add: write_at_def add.assoc)
  finally show ?thesis by (simp add: w1)
qed

lemma relativeLinkStep_patch:
  "Inr (relativeLinkStep (code m) l img) = apply_patch (relativeLinkPatch m l) img"
  by (simp add: relativeLinkStep_def relativeLinkPatch_def apply_patch_def Let_def
      PatchInstructionImmediate_def write_ptr_def)

lemma PatchDataWithValueCheck_patch:
  fixes m :: "'p::len word AsmJSModule"
  assumes "sizeof_ptr m \<le> unat (snd ko)"
  shows "PatchDataWithValueCheck debug (unat (snd ko)) (AddressOf (fst ko)) (- 1 :: 'p word) img
           = apply_patch (absoluteLinkPatch debug AddressOf m ko) img"
  using assms
  by (simp add: PatchDataWithValueCheck_def absoluteLinkPatch_def apply_patch_def JS_ASSERT_def
      getPointer_def setPointer_def read_before_def write_before_def sizeof_ptr_def word_bytes_def)

lemma exitDatumStep_patch:
  assumes "exitDatumOffset m e + 2 * sizeof_ptr m \<le> length img"
  shows "Inr (exitDatumStep m e img) = apply_patch (exitDatumPatch m e) img"
proof -
  have "write_at (exitDatumOffset m e + length (word_to_bytes (interpExitTrampoline m e)))
          (word_to_bytes (0 :: 'a word))
          (write_at (exitDatumOffset m e) (word_to_bytes (interpExitTrampoline m e)) img)
        = write_at (exitDatumOffset m e)
            (word_to_bytes (interpExitTrampoline m e) @ word_to_bytes (0 :: 'a word)) img"
    by (rule write_at_append) (use assms in \<open>simp add: sizeof_ptr_def word_bytes_def\<close>)
  then show ?thesis
    by (simp add: exitDatumStep_def exitDatumPatch_def apply_patch_def write_ptr_def
        sizeof_ptr_def word_bytes_def)
qed

section \<open>Properties of \<^verbatim>\<open>staticallyLink\<close>\<close>

lemma run_patches_append:
  "run_patches (ps @ qs) img = bindE (run_patches ps img) (run_patches qs)"
  by (simp add: run_patches_def[abs_def] foldE_append)

lemma length_run_patches: "run_patches ps img = Inr img' \<Longrightarrow> length img' = length img"
proof (induction ps arbitrary: img)
  case Nil
  then show ?case by (simp add: run_patches_def)
next
  case (Cons p ps)
  then show ?case
    by (auto simp: run_patches_def dest: length_apply_patch split: sum.splits)
qed

lemma sites_ok_in_bounds:
  "sites_ok n sites \<Longrightarrow> a \<in> set sites \<Longrightarrow> fst a + snd a \<le> n"
  by (auto simp: sites_ok_def list_all_iff)

lemma staticallyLinkImage_patches:
  fixes m :: "'p::len word AsmJSModule"
  assumes ok: "staticLinkSitesOk m (length img)"
  shows "staticallyLinkImage debug AddressOf m img
           = run_patches (staticLinkPatches debug AddressOf m) img"
proof -
  define n where "n = length img"
  have rel: "Inr (fold (relativeLinkStep (code m)) ls i)
      = run_patches (map (relativeLinkPatch m) ls) i" for ls i
    unfolding run_patches_def foldE_map foldE_pure[symmetric]
    by (simp add: relativeLinkStep_patch)
  have absok: "sizeof_ptr m \<le> unat (snd ko)" if "ko \<in> set (absoluteLinkOffsets m)" for ko
    using ok that by (auto simp: staticLinkSitesOk_def list_all_iff)
  have abs1: "foldE (absoluteLinkStep debug AddressOf)
               (zip AsmJSImmKinds (absoluteLinks (staticLinkData m))) i
      = foldE (\<lambda>ko. PatchDataWithValueCheck debug (unat (snd ko)) (AddressOf (fst ko)) (- 1))
          (absoluteLinkOffsets m) i" for i
    unfolding absoluteLinkOffsets_def
    using foldE_nested[of "\<lambda>k off. PatchDataWithValueCheck debug (unat off) (AddressOf k) (- 1)"
        "zip AsmJSImmKinds (absoluteLinks (staticLinkData m))" i]
    by (simp add: absoluteLinkStep_def[abs_def])
  have abs2: "foldE (\<lambda>ko. PatchDataWithValueCheck debug (unat (snd ko)) (AddressOf (fst ko)) (- 1))
          (absoluteLinkOffsets m) i
      = run_patches (map (absoluteLinkPatch debug AddressOf m) (absoluteLinkOffsets m)) i" for i
    unfolding run_patches_def foldE_map
    by (rule foldE_cong_inv[where I = "\<lambda>_. True"])
       (simp_all add: PatchDataWithValueCheck_patch[OF absok])
  have exin: "exitDatumOffset m e + 2 * sizeof_ptr m \<le> n" if "e \<in> set (exits m)" for e
    using sites_ok_in_bounds[of n "staticLinkSites m" "(exitDatumOffset m e, 2 * sizeof_ptr m)"]
      ok that
    by (auto simp: staticLinkSitesOk_def staticLinkSites_def exitDatumSites_def n_def)
  have ex: "Inr (fold (exitDatumStep m) (exits m) i)
      = run_patches (map (exitDatumPatch m) (exits m)) i" if "length i = n" for i
    unfolding run_patches_def foldE_map foldE_pure[symmetric]
  proof (rule foldE_cong_inv[where I = "\<lambda>i. length i = n"])
    show "length i = n" by (rule that)
    show "Inr (exitDatumStep m x st) = apply_patch (exitDatumPatch m x) st"
      if "x \<in> set (exits m)" "length st = n" for x st
      using exitDatumStep_patch[of m x st] exin[OF that(1)] that(2) by simp
    show "length st' = n"
      if "x \<in> set (exits m)" "length st = n" "apply_patch (exitDatumPatch m x) st = Inr st'"
      for x st st'
      using length_apply_patch[OF that(3)] that(2) by simp
  qed
  have l1: "length (fold (relativeLinkStep (code m)) ls i) = length i" for ls i
    using length_run_patches[OF rel[symmetric]] by simp
  show ?thesis
  proof (cases "run_patches (map (absoluteLinkPatch debug AddressOf m) (absoluteLinkOffsets m))
                  (fold (relativeLinkStep (code m)) (relativeLinks (staticLinkData m)) img)")
    case (Inl e)
    then show ?thesis
      unfolding staticallyLinkImage_def staticLinkPatches_def run_patches_append
      by (simp add: bindE_def rel[symmetric] abs1 abs2)
  next
    case (Inr img2)
    have "length img2 = n"
      using length_run_patches[OF Inr] l1 by (simp add: n_def)
    from ex[OF this] Inr show ?thesis
      unfolding staticallyLinkImage_def staticLinkPatches_def run_patches_append
      by (simp add: bindE_def rel[symmetric] abs1 abs2)
  qed
qed

lemma patch_sites_staticLink:
  "map patch_site (staticLinkPatches debug AddressOf m) = staticLinkSites m"
  by (simp add: staticLinkPatches_def staticLinkSites_def relativeLinkSites_def
      absoluteLinkSites_def exitDatumSites_def patch_site_def relativeLinkPatch_def
      absoluteLinkPatch_def exitDatumPatch_def comp_def)

lemma staticLinkPatches_lengths:
  fixes m :: "'p::len word AsmJSModule"
  assumes "p \<in> set (staticLinkPatches debug AddressOf m)" "snd (snd p) held = Inr bs"
  shows "length bs = fst (snd p)"
  using assms
  by (auto simp: staticLinkPatches_def relativeLinkPatch_def absoluteLinkPatch_def
      exitDatumPatch_def sizeof_ptr_def word_bytes_def dest!: JS_ASSERT_Inr)

lemma read_at_take:
  "n \<le> k \<Longrightarrow> read_at off n img = take n (read_at off k img)"
  by (simp add: read_at_def min_def)

lemma read_at_drop:
  "read_at (off + j) n img = take n (drop j (read_at off (j + n) img))"
  by (simp add: read_at_def take_drop add.commute)

text \<open>
  C7. On a finished module that is not yet statically linked, whose patch sites lie in the
  image and do not overlap, \<^verbatim>\<open>staticallyLink\<close> returns in a release build, and whenever it
  returns, the pointer at \<^verbatim>\<open>code_ + patchAtOffset\<close> of every relative link is
  \<^verbatim>\<open>code_ + targetOffset\<close>, and the \<^verbatim>\<open>ExitDatum\<close> of every exit holds the exit's interpreter
  trampoline in \<^verbatim>\<open>exit\<close> and \<^verbatim>\<open>nullptr\<close> in \<^verbatim>\<open>fun\<close>.
\<close>

theorem staticallyLink_links_and_exits:
  fixes m :: "'p::len word AsmJSModule"
  assumes fin: "isFinished m"
    and unlinked: "\<not> isStaticallyLinked m"
    and img: "regions s (code m) = Some img"
    and ok: "staticLinkSitesOk m (length img)"
  shows "(\<not> debug \<longrightarrow> (\<exists>m' s'. staticallyLink debug AddressOf m s = Inr (m', s'))) \<and>
         (\<forall>m' s'. staticallyLink debug AddressOf m s = Inr (m', s') \<longrightarrow>
            (\<exists>img'. regions s' (code m') = Some img' \<and>
               (\<forall>l \<in> set (relativeLinks (staticLinkData m')).
                  read_ptr (unat (patchAtOffset l)) img' = code m' + ucast (targetOffset l)) \<and>
               (\<forall>e \<in> set (exits m').
                  read_ptr (exitDatumOffset m' e) img' = interpExitTrampoline m' e \<and>
                  read_ptr (exitDatumOffset m' e + sizeof_ptr m') img' = (0 :: 'p word))))"
proof -
  define ps where "ps = staticLinkPatches debug AddressOf m"
  define P where "P = sizeof_ptr m"
  have P: "P = (LENGTH('p) + 7) div 8" by (simp add: P_def sizeof_ptr_def word_bytes_def)
  have run: "staticallyLinkImage debug AddressOf m img = run_patches ps img"
    unfolding ps_def by (rule staticallyLinkImage_patches[OF ok])
  have sorted: "sorted_wrt site_disjoint (map patch_site ps)"
    using ok by (simp add: ps_def patch_sites_staticLink staticLinkSitesOk_def sites_ok_def)
  have inb: "\<forall>p \<in> set ps. fst p + fst (snd p) \<le> length img"
  proof
    fix p assume "p \<in> set ps"
    then have "patch_site p \<in> set (staticLinkSites m)"
      unfolding ps_def patch_sites_staticLink[symmetric, of m debug AddressOf] by simp
    then show "fst p + fst (snd p) \<le> length img"
      using ok sites_ok_in_bounds[of "length img" "staticLinkSites m" "patch_site p"]
      by (simp add: staticLinkSitesOk_def patch_site_def)
  qed
  have lens: "\<forall>p \<in> set ps. \<forall>held bs. snd (snd p) held = Inr bs \<longrightarrow> length bs = fst (snd p)"
    unfolding ps_def using staticLinkPatches_lengths by blast
  have release: "\<exists>m' s'. staticallyLink debug AddressOf m s = Inr (m', s')" if "\<not> debug"
  proof -
    have "\<forall>p \<in> set ps. \<exists>bs. snd (snd p) (read_at (fst p) (fst (snd p)) img) = Inr bs"
      using that
      by (auto simp: ps_def staticLinkPatches_def relativeLinkPatch_def absoluteLinkPatch_def
          exitDatumPatch_def)
    from run_patches_succeeds[OF sorted inb lens this]
    obtain img' where "run_patches ps img = Inr img'" by blast
    then have "staticallyLinkImage debug AddressOf m img = Inr img'" by (simp add: run)
    then show ?thesis
      using that img by (simp add: staticallyLink_def Let_def bindE_def modify_imageE_def)
  qed
  have post: "\<exists>img'. regions s' (code m') = Some img' \<and>
               (\<forall>l \<in> set (relativeLinks (staticLinkData m')).
                  read_ptr (unat (patchAtOffset l)) img' = code m' + ucast (targetOffset l)) \<and>
               (\<forall>e \<in> set (exits m').
                  read_ptr (exitDatumOffset m' e) img' = interpExitTrampoline m' e \<and>
                  read_ptr (exitDatumOffset m' e + sizeof_ptr m') img' = (0 :: 'p word))"
    if res: "staticallyLink debug AddressOf m s = Inr (m', s')" for m' s'
  proof -
    from res have "bindE (modify_imageE m (staticallyLinkImage debug AddressOf m) s)
        (\<lambda>s'. JS_ASSERT debug
            (isStaticallyLinked (m \<lparr> interruptExit := code m + ucast (interruptExitOffset (staticLinkData m)) \<rparr>))
            (Inr (m \<lparr> interruptExit := code m + ucast (interruptExitOffset (staticLinkData m)) \<rparr>, s')))
        = Inr (m', s')"
      unfolding staticallyLink_def Let_def by (blast dest: JS_ASSERT_Inr)
    then obtain img' where r: "run_patches ps img = Inr img'"
      and s': "s' = s \<lparr> regions := (regions s)(code m \<mapsto> img') \<rparr>"
      and m': "m' = m \<lparr> interruptExit := code m + ucast (interruptExitOffset (staticLinkData m)) \<rparr>"
      using img
      by (auto simp: bindE_def modify_imageE_def run split: sum.splits dest!: JS_ASSERT_Inr)
    note eff = run_patches_effect[OF sorted inb lens r]
    have at: "snd (snd p) (read_at (fst p) (fst (snd p)) img)
                = Inr (read_at (fst p) (fst (snd p)) img')" if "p \<in> set ps" for p
      using eff that by blast
    have rel: "read_ptr (unat (patchAtOffset l)) img' = code m + ucast (targetOffset l)"
      if "l \<in> set (relativeLinks (staticLinkData m))" for l
    proof -
      have "relativeLinkPatch m l \<in> set ps"
        using that by (simp add: ps_def staticLinkPatches_def)
      from at[OF this]
      have "read_at (unat (patchAtOffset l)) P img' = word_to_bytes (code m + ucast (targetOffset l))"
        by (simp add: relativeLinkPatch_def P_def)
      then show ?thesis by (simp add: read_ptr_def P[symmetric])
    qed
    have ex: "read_ptr (exitDatumOffset m e) img' = interpExitTrampoline m e \<and>
              read_ptr (exitDatumOffset m e + sizeof_ptr m) img' = (0 :: 'p word)"
      if "e \<in> set (exits m)" for e
    proof -
      have "exitDatumPatch m e \<in> set ps"
        using that by (simp add: ps_def staticLinkPatches_def)
      from at[OF this]
      have both: "read_at (exitDatumOffset m e) (2 * P) img'
          = word_to_bytes (interpExitTrampoline m e) @ word_to_bytes (0 :: 'p word)"
        by (simp add: exitDatumPatch_def P_def)
      have a: "read_at (exitDatumOffset m e) P img' = word_to_bytes (interpExitTrampoline m e)"
        using read_at_take[of P "2 * P" "exitDatumOffset m e" img'] both by (simp add: P)
      have b: "read_at (exitDatumOffset m e + P) P img' = word_to_bytes (0 :: 'p word)"
        using read_at_drop[of "exitDatumOffset m e" P P img'] both
        by (simp add: P mult_2)
      show ?thesis
        using a b by (simp add: read_ptr_def P[symmetric] P_def[symmetric])
    qed
    show ?thesis
      using rel ex by (simp add: s' m' interpExitTrampoline_def exitDatumOffset_def
          offsetOfGlobalData_def sizeof_ptr_def)
  qed
  show ?thesis using release post by blast
qed

lemma staticallyLink_module:
  assumes "staticallyLink debug AddressOf m s = Inr (m', s')"
  shows "m' = m \<lparr> interruptExit := code m + ucast (interruptExitOffset (staticLinkData m)) \<rparr>"
proof -
  from assms have "bindE (modify_imageE m (staticallyLinkImage debug AddressOf m) s)
      (\<lambda>s'. JS_ASSERT debug
          (isStaticallyLinked (m \<lparr> interruptExit := code m + ucast (interruptExitOffset (staticLinkData m)) \<rparr>))
          (Inr (m \<lparr> interruptExit := code m + ucast (interruptExitOffset (staticLinkData m)) \<rparr>, s')))
      = Inr (m', s')"
    unfolding staticallyLink_def Let_def by (blast dest: JS_ASSERT_Inr)
  then show ?thesis
    by (auto simp: bindE_def split: sum.splits dest!: JS_ASSERT_Inr)
qed

theorem staticallyLink_links_and_exits_witness:
  "isFinished example_unlinked64 \<and>
   \<not> isStaticallyLinked example_unlinked64 \<and>
   regions example_mapped64 (code example_unlinked64) = Some (replicate 4096 0) \<and>
   staticLinkSitesOk example_unlinked64 4096 \<and>
   \<not> isl (staticallyLink False example_AddressOf example_unlinked64 example_mapped64) \<and>
   (read_ptr 16 (the (regions (snd (projr
       (staticallyLink False example_AddressOf example_unlinked64 example_mapped64))) 0x20000))
      :: 64 word) = 0x20020 \<and>
   (read_ptr 72 (the (regions (snd (projr
       (staticallyLink False example_AddressOf example_unlinked64 example_mapped64))) 0x20000))
      :: 64 word) = 0x20018 \<and>
   (read_ptr 80 (the (regions (snd (projr
       (staticallyLink False example_AddressOf example_unlinked64 example_mapped64))) 0x20000))
      :: 64 word) = 0"
proof -
  have fin: "isFinished example_unlinked64"
    by (simp add: isFinished_def example_unlinked64_def)
  have unl: "\<not> isStaticallyLinked example_unlinked64"
    by (simp add: isStaticallyLinked_def example_unlinked64_def AsmJSModule_new_def)
  have img: "regions example_mapped64 (code example_unlinked64) = Some (replicate 4096 0)"
    by (simp add: example_mapped64_def example_unlinked64_def)
  have ok: "staticLinkSitesOk example_unlinked64 (length (replicate 4096 (0 :: byte)))"
    by (simp add: staticLinkSitesOk_def sites_ok_def staticLinkSites_def relativeLinkSites_def
        absoluteLinkSites_def absoluteLinkOffsets_def exitDatumSites_def site_disjoint_def
        exitDatumOffset_def offsetOfGlobalData_def sizeof_ptr_def AsmJSImmKinds_def
        example_unlinked64_def AsmJSModule_new_def)
  note T = staticallyLink_links_and_exits[OF fin unl img ok, of False example_AddressOf]
  from T obtain m' s' where
    r: "staticallyLink False example_AddressOf example_unlinked64 example_mapped64 = Inr (m', s')"
    by blast
  have m': "m' = example_unlinked64 \<lparr> interruptExit := 0x20038 \<rparr>"
    using staticallyLink_module[OF r] by (simp add: example_unlinked64_def)
  from T r obtain img' where i: "regions s' (code m') = Some img'"
    and rel: "\<forall>l \<in> set (relativeLinks (staticLinkData m')).
                read_ptr (unat (patchAtOffset l)) img' = code m' + ucast (targetOffset l)"
    and ex: "\<forall>e \<in> set (exits m').
                read_ptr (exitDatumOffset m' e) img' = interpExitTrampoline m' e \<and>
                read_ptr (exitDatumOffset m' e + sizeof_ptr m') img' = (0 :: 64 word)"
    by blast
  have c: "code m' = 0x20000" by (simp add: m' example_unlinked64_def)
  have p1: "(read_ptr 16 img' :: 64 word) = 0x20020"
    using rel by (simp add: m' example_unlinked64_def)
  have p2: "(read_ptr 72 img' :: 64 word) = 0x20018 \<and> (read_ptr 80 img' :: 64 word) = 0"
    using ex
    by (simp add: m' example_unlinked64_def exitDatumOffset_def offsetOfGlobalData_def
        interpExitTrampoline_def sizeof_ptr_def)
  show ?thesis
    using fin unl img ok p1 p2 i by (simp add: r c)
qed

section \<open>Properties of the cache codec\<close>

lemma length_WriteBytes [simp]: "length (WriteBytes dst src) = length dst + length src"
  by (simp add: WriteBytes_def)

lemma length_WriteScalar [simp]:
  "length (WriteScalar dst (t :: 'a::len word)) = length dst + (LENGTH('a) + 7) div 8"
  by (simp add: WriteScalar_def)

lemma length_concat_const:
  assumes "\<And>x. x \<in> set xs \<Longrightarrow> length (f x) = k"
  shows "length (concat (map f xs)) = length xs * k"
  using assms by (induction xs) auto

lemma unat_of_nat_u32: "n < 2 ^ 32 \<Longrightarrow> unat (of_nat n :: u32) = n"
  by (simp add: unat_of_nat)

lemma length_SerializeName:
  assumes "name_ok name"
  shows "length (SerializeName cursor name) = length cursor + SerializedNameSize name"
proof (cases name)
  case None
  then show ?thesis by (simp add: SerializeName_def SerializedNameSize_def)
next
  case (Some n)
  then have len: "name_length n < 2 ^ 32" using assms by (simp add: name_ok_def)
  have u: "unat (of_nat (name_length n) :: u32) = name_length n"
    by (rule unat_of_nat_u32[OF len])
  show ?thesis
  proof (cases n)
    case (Latin1Name cs)
    then show ?thesis using Some u by (simp add: SerializeName_def SerializedNameSize_def Let_def)
  next
    case (TwoByteName cs)
    have "length (concat (map word_to_bytes cs)) = length cs * 2"
      by (rule length_concat_const) simp
    then show ?thesis
      using Some u TwoByteName by (simp add: SerializeName_def SerializedNameSize_def Let_def)
  qed
qed

lemma fold_sizes: "fold (\<lambda>x sz. sz + f x) xs a = (a :: nat) + sum_list (map f xs)"
  by (induction xs arbitrary: a) auto

lemma length_fold_serialize:
  assumes "\<And>x c. x \<in> set xs \<Longrightarrow> length (ser c x) = length c + sz x"
  shows "length (fold (\<lambda>x c. ser c x) xs c0) = length c0 + sum_list (map sz xs)"
  using assms by (induction xs arbitrary: c0) auto

lemma length_SerializeVector:
  assumes "\<And>x c. x \<in> set xs \<Longrightarrow> length (ser c x) = length c + sz x"
  shows "length (SerializeVector ser cursor xs) = length cursor + SerializedVectorSize sz xs"
  using length_fold_serialize[of xs ser sz, OF assms]
  by (simp add: SerializeVector_def SerializedVectorSize_def fold_sizes)

lemma length_SerializePodVector:
  assumes "\<And>x. x \<in> set xs \<Longrightarrow> length (enc x) = k"
  shows "length (SerializePodVector enc cursor xs) = length cursor + SerializedPodVectorSize k xs"
  using length_concat_const[of xs enc k, OF assms]
  by (simp add: SerializePodVector_def SerializedPodVectorSize_def)

lemma length_read_at: "off + n \<le> length img \<Longrightarrow> length (read_at off n img) = n"
  by (simp add: read_at_def)

lemma length_Pod_bytes [simp]: "length (Pod_bytes psize pd) = sizeof_Pod psize"
  by (simp add: Pod_bytes_def sizeof_Pod_def)

lemma length_Exit_bytes [simp]: "length (Exit_bytes e) = sizeof_Exit"
  by (simp add: Exit_bytes_def sizeof_Exit_def)

lemma length_CallSite_bytes [simp]: "length (CallSite_bytes c) = sizeof_CallSite"
  by (simp add: CallSite_bytes_def sizeof_CallSite_def)

lemma length_CodeRange_bytes [simp]: "length (CodeRange_bytes c) = sizeof_CodeRange"
  by (simp add: CodeRange_bytes_def sizeof_CodeRange_def)

lemma length_FuncPtrTable_bytes [simp]: "length (FuncPtrTable_bytes c) = sizeof_FuncPtrTable"
  by (simp add: FuncPtrTable_bytes_def sizeof_FuncPtrTable_def)

lemma length_AsmJSHeapAccess_bytes [simp]: "length (AsmJSHeapAccess_bytes c) = sizeof_AsmJSHeapAccess"
  by (simp add: AsmJSHeapAccess_bytes_def sizeof_AsmJSHeapAccess_def)

lemma length_RelativeLink_bytes [simp]: "length (RelativeLink_bytes c) = sizeof_RelativeLink"
  by (simp add: RelativeLink_bytes_def sizeof_RelativeLink_def)

lemma length_Global_serialize:
  assumes "Global_ok g"
  shows "length (Global_serialize cursor g) = length cursor + Global_serializedSize g"
  using assms
  by (simp add: Global_serialize_def Global_serializedSize_def Global_ok_def
      length_SerializeName length_read_at)

lemma length_Exit_serialize:
  "length (Exit_serialize cursor e) = length cursor + Exit_serializedSize e"
  by (simp add: Exit_serialize_def Exit_serializedSize_def)

lemma length_ExportedFunction_serialize:
  assumes "ExportedFunction_ok f"
  shows "length (ExportedFunction_serialize cursor f)
           = length cursor + ExportedFunction_serializedSize f"
proof -
  have "length (SerializePodVector word_to_bytes c (argCoercions f))
      = length c + SerializedPodVectorSize 4 (argCoercions f)" for c
    by (rule length_SerializePodVector) simp
  then show ?thesis
    using assms
    by (simp add: ExportedFunction_serialize_def ExportedFunction_serializedSize_def
        ExportedFunction_ok_def Let_def length_SerializeName length_read_at
        SerializedPodVectorSize_def)
qed

lemma length_AbsoluteLinkArray_serialize:
  "length (AbsoluteLinkArray_serialize cursor array)
     = length cursor + AbsoluteLinkArray_serializedSize array"
proof -
  have "length (SerializePodVector word_to_bytes c (v :: u32 list))
      = length c + SerializedPodVectorSize 4 v" for c v
    by (rule length_SerializePodVector) simp
  from length_fold_serialize[of array "SerializePodVector word_to_bytes" "SerializedPodVectorSize 4", OF this]
  show ?thesis
    by (simp add: AbsoluteLinkArray_serialize_def AbsoluteLinkArray_serializedSize_def fold_sizes)
qed

lemma length_StaticLinkData_serialize:
  "length (StaticLinkData_serialize cursor d) = length cursor + StaticLinkData_serializedSize d"
proof -
  have "length (SerializePodVector RelativeLink_bytes c (relativeLinks d))
      = length c + SerializedPodVectorSize sizeof_RelativeLink (relativeLinks d)" for c
    by (rule length_SerializePodVector) simp
  then show ?thesis
    by (simp add: StaticLinkData_serialize_def StaticLinkData_serializedSize_def Let_def
        length_AbsoluteLinkArray_serialize)
qed

lemma ReadBytes_append: "n = length a \<Longrightarrow> ReadBytes (a @ rest) n = Inr (a, rest)"
  by (simp add: ReadBytes_def)

lemma ReadScalar32_bytes: "ReadScalar32 (word_to_bytes (w :: u32) @ rest) = Inr (w, rest)"
  by (simp add: ReadScalar32_def ReadBytes_append bindE_def)

lemma WriteScalar_app: "WriteScalar cursor w = cursor @ word_to_bytes w"
  by (simp add: WriteScalar_def WriteBytes_def)

lemma top_bit_clear:
  fixes len :: u32
  assumes "unat len < 2 ^ 31"
  shows "\<not> bit len 31"
proof -
  have "\<not> bit (unat len) 31" using assms by (simp add: bit_iff_odd)
  then show ?thesis by (simp add: bit_unsigned_iff)
qed

lemma bit_times2:
  fixes w :: u32
  shows "bit (w * 2) n \<longleftrightarrow> n \<noteq> 0 \<and> n < 32 \<and> bit w (n - 1)"
proof -
  have "w * 2 = push_bit 1 w" by (simp add: push_bit_eq_mult)
  then have "bit (w * 2) n = bit (push_bit 1 w) n" by (simp only:)
  also have "\<dots> \<longleftrightarrow> n \<noteq> 0 \<and> n < 32 \<and> bit w (n - 1)"
    unfolding bit_push_bit_iff by (auto simp: possible_bit_word)
  finally show ?thesis .
qed

lemma lengthAndEncoding_length:
  fixes len :: u32
  assumes "unat len < 2 ^ 31"
  shows "drop_bit 1 (push_bit 1 len OR (if b then 1 else 0)) = len"
proof (rule bit_word_eqI)
  fix n assume n: "n < LENGTH(32)"
  show "bit (drop_bit 1 (push_bit 1 len OR (if b then 1 else 0))) n = bit len n"
    using n top_bit_clear[OF assms]
    by (cases "n = 31") (auto simp: bit_simps bit_times2)
qed

lemma lengthAndEncoding_flag:
  fixes len :: u32
  shows "((push_bit 1 len OR (if b then 1 else 0)) AND 1 \<noteq> 0) = b"
proof -
  define X where "X = push_bit 1 len OR (if b then 1 else 0)"
  have "bit X 0 = b"
    unfolding X_def by (auto simp: bit_simps bit_times2)
  moreover have "(X AND 1 \<noteq> 0) = odd X"
    by (simp add: and_one_eq) (metis odd_iff_mod_2_eq_one)
  moreover have "odd X = bit X 0" by (simp add: bit_0)
  ultimately show ?thesis unfolding X_def by simp
qed

lemma chunksN_concat:
  assumes "\<And>x. x \<in> set xs \<Longrightarrow> length (enc x) = k"
  shows "chunksN k (length xs) (concat (map enc xs) @ rest) = map enc xs"
  using assms by (induction xs) auto

lemma chunksN_concat':
  assumes "\<And>x. x \<in> set xs \<Longrightarrow> length (enc x) = k" "n = length xs"
  shows "chunksN k n (concat (map enc xs)) = map enc xs"
  using chunksN_concat[of xs enc k "[]"] assms by simp

lemma SerializeName_app: "SerializeName cursor name = cursor @ SerializeName [] name"
  by (simp add: SerializeName_def WriteScalar_app WriteBytes_def Let_def split: option.splits)

lemma DeserializeName_SerializeName:
  assumes ok: "name_ok name" and alloc: "\<And>n. allocOk n"
  shows "DeserializeName allocOk (SerializeName [] name @ rest) = Inr (name, rest)"
proof (cases name)
  case None
  then show ?thesis
    by (simp add: SerializeName_def DeserializeName_def WriteScalar_app
        ReadScalar32_bytes bindE_def Let_def)
next
  case (Some n)
  define len :: u32 where "len = of_nat (name_length n)"
  have l31: "name_length n < 2 ^ 31" and pos: "0 < name_length n"
    using ok Some by (simp_all add: name_ok_def)
  have u: "unat len = name_length n"
    unfolding len_def by (rule unat_of_nat_u32) (use l31 in simp)
  have nz: "len \<noteq> 0" using u pos by (metis unat_0 less_numeral_extra(3))
  have dl: "drop_bit 1 (push_bit 1 len OR (if hasLatin1Chars n then 1 else 0)) = len"
    by (rule lengthAndEncoding_length) (use u l31 in simp)
  have fl: "((push_bit 1 len OR (if hasLatin1Chars n then 1 else 0)) AND 1 \<noteq> 0) = hasLatin1Chars n"
    by (rule lengthAndEncoding_flag)
  have ser: "SerializeName [] name @ rest
      = word_to_bytes (push_bit 1 len OR (if hasLatin1Chars n then 1 else 0))
        @ name_chars n (name_length n) @ rest"
    using Some u by (simp add: SerializeName_def WriteScalar_app WriteBytes_def Let_def len_def)
  show ?thesis
  proof (cases n)
    case (Latin1Name cs)
    have "DeserializeChars allocOk True (cs @ rest) (length cs) = Inr (Some (Latin1Name cs), rest)"
      by (simp add: DeserializeChars_def alloc ReadBytes_append bindE_def)
    then show ?thesis
      unfolding ser DeserializeName_def ReadScalar32_bytes bindE_def Let_def
      using Some Latin1Name dl fl nz u by simp
  next
    case (TwoByteName cs)
    have l2: "length (concat (map word_to_bytes cs)) = length cs * 2"
      by (rule length_concat_const) simp
    have ch: "chunksN 2 (length cs) (concat (map word_to_bytes cs)) = map word_to_bytes cs"
      by (rule chunksN_concat') simp_all
    have "DeserializeChars allocOk False (concat (map word_to_bytes cs) @ rest) (length cs)
        = Inr (Some (TwoByteName cs), rest)"
      by (simp add: DeserializeChars_def alloc ReadBytes_append l2 bindE_def ch comp_def)
    then show ?thesis
      unfolding ser DeserializeName_def ReadScalar32_bytes bindE_def Let_def
      using Some TwoByteName dl fl nz u by simp
  qed
qed

lemma SerializePodVector_app:
  "SerializePodVector enc cursor xs = cursor @ SerializePodVector enc [] xs"
  by (simp add: SerializePodVector_def WriteScalar_app WriteBytes_def)

lemma DeserializePodVector_SerializePodVector:
  assumes sz: "\<And>x. x \<in> set xs \<Longrightarrow> length (enc x) = k"
    and rt: "\<And>x. x \<in> set xs \<Longrightarrow> dec (enc x) = x"
    and len: "length xs < 2 ^ 32"
    and alloc: "\<And>n. allocOk n"
  shows "DeserializePodVector allocOk dec k (SerializePodVector enc [] xs @ rest) = Inr (xs, rest)"
proof -
  have u: "unat (of_nat (length xs) :: u32) = length xs" by (rule unat_of_nat_u32[OF len])
  have l: "length (concat (map enc xs)) = length xs * k"
    by (rule length_concat_const) (rule sz)
  have ch: "chunksN k (length xs) (concat (map enc xs)) = map enc xs"
    by (rule chunksN_concat') (simp_all add: sz)
  have m: "map (dec \<circ> enc) xs = xs" using rt by (induction xs) auto
  have s: "SerializePodVector enc [] xs @ rest
      = word_to_bytes (of_nat (length xs) :: u32) @ concat (map enc xs) @ rest"
    by (simp add: SerializePodVector_def WriteScalar_app WriteBytes_def)
  have r: "ReadBytes (concat (map enc xs) @ rest) (length xs * k)
      = Inr (concat (map enc xs), rest)"
    using ReadBytes_append[where a = "concat (map enc xs)" and rest = rest] l by simp
  show ?thesis
    unfolding s DeserializePodVector_def ReadScalar32_bytes bindE_def
    by (simp add: u alloc r ch m)
qed

lemma fold_serialize_app:
  assumes "\<And>x c. x \<in> set xs \<Longrightarrow> ser c x = c @ ser [] x"
  shows "fold (\<lambda>x c. ser c x) xs c0 = c0 @ concat (map (ser []) xs)"
  using assms
proof (induction xs arbitrary: c0)
  case Nil
  then show ?case by simp
next
  case (Cons x xs)
  have h: "ser c0 x = c0 @ ser [] x" by (rule Cons.prems) simp
  have "fold (\<lambda>x c. ser c x) xs (ser c0 x) = ser c0 x @ concat (map (ser []) xs)"
    by (rule Cons.IH) (rule Cons.prems, simp)
  then show ?case by (simp add: h)
qed

lemma SerializeVector_app:
  assumes "\<And>x c. x \<in> set xs \<Longrightarrow> ser c x = c @ ser [] x"
  shows "SerializeVector ser cursor xs
           = cursor @ word_to_bytes (of_nat (length xs) :: u32) @ concat (map (ser []) xs)"
proof -
  have "fold (\<lambda>x c. ser c x) xs c0 = c0 @ concat (map (ser []) xs)" for c0
    by (rule fold_serialize_app) (rule assms)
  then show ?thesis by (simp add: SerializeVector_def WriteScalar_app)
qed

lemma DeserializeElems_concat:
  assumes "\<And>x r. x \<in> set xs \<Longrightarrow> de (ser [] x @ r) = Inr (x, r)"
  shows "DeserializeElems de (length xs) (concat (map (ser []) xs) @ rest) = Inr (xs, rest)"
  using assms by (induction xs) (simp_all add: bindE_def)

lemma DeserializeVector_SerializeVector:
  assumes app: "\<And>x c. x \<in> set xs \<Longrightarrow> ser c x = c @ ser [] x"
    and rt: "\<And>x r. x \<in> set xs \<Longrightarrow> de (ser [] x @ r) = Inr (x, r)"
    and len: "length xs < 2 ^ 32"
    and alloc: "\<And>n. allocOk n"
  shows "DeserializeVector allocOk de (SerializeVector ser [] xs @ rest) = Inr (xs, rest)"
proof -
  have u: "unat (of_nat (length xs) :: u32) = length xs" by (rule unat_of_nat_u32[OF len])
  have e: "DeserializeElems de (length xs) (concat (map (ser []) xs) @ rest) = Inr (xs, rest)"
    by (rule DeserializeElems_concat) (rule rt)
  have s: "SerializeVector ser [] xs @ rest
      = word_to_bytes (of_nat (length xs) :: u32) @ concat (map (ser []) xs) @ rest"
    using SerializeVector_app[of xs ser "[]", OF app] by simp
  show ?thesis
    unfolding s DeserializeVector_def ReadScalar32_bytes bindE_def
    by (simp add: u alloc e)
qed

lemma CallSiteKind_code_inv [simp]: "CallSiteKind_of_code (CallSiteKind_code k) = k"
  by (cases k) (simp_all add: CallSiteKind_of_code_def)

lemma Kind_code_inv [simp]: "Kind_of_code (Kind_code k) = k"
  by (cases k) (simp_all add: Kind_of_code_def)

lemma RelativeLinkKind_code_inv [simp]: "RelativeLinkKind_of_code (RelativeLinkKind_code k) = k"
  by (cases k) (simp_all add: RelativeLinkKind_of_code_def)

lemma Exit_of_bytes_inv: "Exit_of_bytes (Exit_bytes e) = e"
  by (simp add: Exit_of_bytes_def Exit_bytes_def read_at_def)

lemma CallSite_of_bytes_inv: "CallSite_of_bytes (CallSite_bytes c) = c"
  by (simp add: CallSite_of_bytes_def CallSite_bytes_def read_at_def)

lemma CodeRange_of_bytes_inv: "CodeRange_of_bytes (CodeRange_bytes c) = c"
  by (simp add: CodeRange_of_bytes_def CodeRange_bytes_def read_at_def nth_append)

lemma FuncPtrTable_of_bytes_inv: "FuncPtrTable_of_bytes (FuncPtrTable_bytes c) = c"
  by (simp add: FuncPtrTable_of_bytes_def FuncPtrTable_bytes_def read_at_def)

lemma AsmJSHeapAccess_of_bytes_inv: "AsmJSHeapAccess_of_bytes (AsmJSHeapAccess_bytes c) = c"
  by (simp add: AsmJSHeapAccess_of_bytes_def AsmJSHeapAccess_bytes_def read_at_def nth_append)

lemma RelativeLink_of_bytes_inv: "RelativeLink_of_bytes (RelativeLink_bytes c) = c"
  by (simp add: RelativeLink_of_bytes_def RelativeLink_bytes_def read_at_def)

lemma u32_of_bytes_inv: "u32_of_bytes (word_to_bytes w) = w"
  by (simp add: u32_of_bytes_def)

lemma le_value_le_bytes_small: "v < 256 ^ n \<Longrightarrow> le_value (le_bytes n v) = v"
  by (simp add: le_value_le_bytes)

lemma bool_byte_inv [simp]: "(bool_byte b \<noteq> 0) = b"
  by (simp add: bool_byte_def)

lemma Pod_of_bytes_inv:
  assumes "Pod_ok k pd"
  shows "Pod_of_bytes k (Pod_bytes k pd) = pd"
proof -
  have d2: "2 * k - k = k" "3 * k - k = 2 * k" "4 * k - k = 3 * k" by simp_all
  show ?thesis
    using assms
    by (simp add: Pod_of_bytes_def Pod_bytes_def Pod_ok_def read_at_def nth_append
        le_value_le_bytes_small d2)
qed

lemma read_at_whole: "length bs = n \<Longrightarrow> read_at 0 n bs = bs"
  by (simp add: read_at_def)

lemma Global_serialize_app: "Global_serialize cursor g = cursor @ Global_serialize [] g"
proof -
  have "SerializeName (cursor @ b) n = cursor @ SerializeName b n" for b n
    using SerializeName_app[of "cursor @ b" n] SerializeName_app[of b n] by simp
  then show ?thesis by (simp add: Global_serialize_def WriteBytes_def)
qed

lemma Global_deserialize_serialize:
  assumes ok: "Global_ok g" and alloc: "\<And>n. allocOk n"
  shows "Global_deserialize allocOk (Global_serialize [] g @ rest) = Inr (g, rest)"
proof -
  have l: "length (g_pod g) = sizeof_Global_pod" and n: "name_ok (g_name g)"
    using ok by (simp_all add: Global_ok_def)
  have s: "Global_serialize [] g @ rest = g_pod g @ SerializeName [] (g_name g) @ rest"
    using SerializeName_app[of "g_pod g" "g_name g"]
    by (simp add: Global_serialize_def WriteBytes_def read_at_whole[OF l])
  have r: "ReadBytes (g_pod g @ SerializeName [] (g_name g) @ rest) sizeof_Global_pod
             = Inr (g_pod g, SerializeName [] (g_name g) @ rest)"
    by (rule ReadBytes_append) (simp add: l)
  have d: "DeserializeName allocOk (SerializeName [] (g_name g) @ rest) = Inr (g_name g, rest)"
    by (rule DeserializeName_SerializeName[OF n]) (rule alloc)
  show ?thesis
    unfolding s Global_deserialize_def r bindE_def by (simp add: d)
qed

lemma Exit_serialize_app: "Exit_serialize cursor e = cursor @ Exit_serialize [] e"
  by (simp add: Exit_serialize_def WriteBytes_def)

lemma Exit_deserialize_serialize:
  "Exit_deserialize (Exit_serialize [] e @ rest) = Inr (e, rest)"
proof -
  have r: "ReadBytes (Exit_bytes e @ rest) sizeof_Exit = Inr (Exit_bytes e, rest)"
    by (rule ReadBytes_append) (simp add: Exit_bytes_def sizeof_Exit_def)
  show ?thesis
    by (simp add: Exit_deserialize_def Exit_serialize_def WriteBytes_def r bindE_def
        Exit_of_bytes_inv)
qed

lemma ExportedFunction_serialize_eq:
  "ExportedFunction_serialize cursor f
     = cursor @ SerializeName [] (ef_name f) @ SerializeName [] (maybeFieldName f) @
       SerializePodVector word_to_bytes [] (argCoercions f) @
       read_at 0 sizeof_ExportedFunction_pod (ef_pod f)"
proof -
  have a: "SerializeName cursor (ef_name f) = cursor @ SerializeName [] (ef_name f)"
    by (rule SerializeName_app)
  have b: "SerializeName (cursor @ x) (maybeFieldName f)
             = cursor @ x @ SerializeName [] (maybeFieldName f)" for x
    using SerializeName_app[of "cursor @ x" "maybeFieldName f"] by simp
  have c: "SerializePodVector word_to_bytes (cursor @ x) (argCoercions f)
             = cursor @ x @ SerializePodVector word_to_bytes [] (argCoercions f)" for x
    using SerializePodVector_app[of word_to_bytes "cursor @ x" "argCoercions f"] by simp
  show ?thesis
    unfolding ExportedFunction_serialize_def Let_def a b c WriteBytes_def by simp
qed

lemma ExportedFunction_serialize_app:
  "ExportedFunction_serialize cursor f = cursor @ ExportedFunction_serialize [] f"
  using ExportedFunction_serialize_eq[of cursor f] ExportedFunction_serialize_eq[of "[]" f]
  by simp

lemma u32_vector_roundtrip:
  assumes len: "length xs < 2 ^ 32" and alloc: "\<And>n. allocOk n"
  shows "DeserializePodVector allocOk u32_of_bytes 4 (SerializePodVector word_to_bytes [] xs @ rest)
           = Inr (xs, rest)"
  by (rule DeserializePodVector_SerializePodVector)
     (use len alloc in \<open>simp_all add: u32_of_bytes_inv\<close>)

lemma ExportedFunction_deserialize_serialize:
  assumes ok: "ExportedFunction_ok f" and alloc: "\<And>n. allocOk n"
  shows "ExportedFunction_deserialize allocOk (ExportedFunction_serialize [] f @ rest) = Inr (f, rest)"
proof -
  have l: "length (ef_pod f) = sizeof_ExportedFunction_pod"
    and n1: "name_ok (ef_name f)" and n2: "name_ok (maybeFieldName f)"
    and la: "length (argCoercions f) < 2 ^ 32"
    using ok by (simp_all add: ExportedFunction_ok_def)
  define t3 where "t3 = ef_pod f @ rest"
  define t2 where "t2 = SerializePodVector word_to_bytes [] (argCoercions f) @ t3"
  define t1 where "t1 = SerializeName [] (maybeFieldName f) @ t2"
  have s: "ExportedFunction_serialize [] f @ rest = SerializeName [] (ef_name f) @ t1"
    by (simp add: ExportedFunction_serialize_eq read_at_whole[OF l] t1_def t2_def t3_def)
  have d1: "DeserializeName allocOk (SerializeName [] (ef_name f) @ t1) = Inr (ef_name f, t1)"
    by (rule DeserializeName_SerializeName[OF n1]) (rule alloc)
  have d2: "DeserializeName allocOk t1 = Inr (maybeFieldName f, t2)"
    unfolding t1_def by (rule DeserializeName_SerializeName[OF n2]) (rule alloc)
  have d3: "DeserializePodVector allocOk u32_of_bytes 4 t2 = Inr (argCoercions f, t3)"
    unfolding t2_def by (rule u32_vector_roundtrip[OF la]) (rule alloc)
  have d4: "ReadBytes t3 sizeof_ExportedFunction_pod = Inr (ef_pod f, rest)"
    unfolding t3_def by (rule ReadBytes_append) (simp add: l)
  show ?thesis
    unfolding s ExportedFunction_deserialize_def by (simp add: d1 d2 d3 d4 bindE_def)
qed

lemma AbsoluteLinkArray_serialize_eq:
  "AbsoluteLinkArray_serialize cursor array
     = cursor @ concat (map (SerializePodVector word_to_bytes []) array)"
  unfolding AbsoluteLinkArray_serialize_def
  by (rule fold_serialize_app) (rule SerializePodVector_app)

lemma AbsoluteLinkArray_deserializeLoop_roundtrip:
  assumes "list_all (\<lambda>v. length v < 2 ^ 32) vs" and alloc: "\<And>n. allocOk n"
  shows "AbsoluteLinkArray_deserializeLoop allocOk (length vs)
           (Inr (acc, concat (map (SerializePodVector word_to_bytes []) vs) @ rest))
         = Inr (acc @ vs, rest)"
  using assms(1)
proof (induction vs arbitrary: acc)
  case Nil
  then show ?case by simp
next
  case (Cons v vs)
  have lv: "length v < 2 ^ 32" and rest: "list_all (\<lambda>v. length v < 2 ^ 32) vs"
    using Cons.prems by simp_all
  define t where "t = concat (map (SerializePodVector word_to_bytes []) vs) @ rest"
  have d: "DeserializePodVector allocOk u32_of_bytes 4 (SerializePodVector word_to_bytes [] v @ t)
             = Inr (v, t)"
    by (rule u32_vector_roundtrip[OF lv]) (rule alloc)
  have "AbsoluteLinkArray_deserializeLoop allocOk (length vs) (Inr (acc @ [v], t))
          = Inr ((acc @ [v]) @ vs, rest)"
    unfolding t_def by (rule Cons.IH[OF rest])
  then show ?case
    using d by (simp add: bindE_def t_def)
qed

lemma AbsoluteLinkArray_deserialize_serialize:
  assumes "length vs = AsmJSImm_Limit" "list_all (\<lambda>v. length v < 2 ^ 32) vs"
    and alloc: "\<And>n. allocOk n"
  shows "AbsoluteLinkArray_deserialize allocOk (AbsoluteLinkArray_serialize [] vs @ rest)
           = Inr (vs, rest)"
  using AbsoluteLinkArray_deserializeLoop_roundtrip[of vs allocOk "[]" rest, OF assms(2) alloc]
  by (simp add: AbsoluteLinkArray_deserialize_def AbsoluteLinkArray_serialize_eq assms(1)[symmetric])

lemma StaticLinkData_serialize_eq:
  "StaticLinkData_serialize cursor d
     = cursor @ word_to_bytes (interruptExitOffset d) @
       SerializePodVector RelativeLink_bytes [] (relativeLinks d) @
       AbsoluteLinkArray_serialize [] (absoluteLinks d)"
proof -
  have c: "SerializePodVector RelativeLink_bytes (cursor @ x) (relativeLinks d)
             = cursor @ x @ SerializePodVector RelativeLink_bytes [] (relativeLinks d)" for x
    using SerializePodVector_app[of RelativeLink_bytes "cursor @ x" "relativeLinks d"] by simp
  show ?thesis
    unfolding StaticLinkData_serialize_def Let_def WriteScalar_app c
    by (simp add: AbsoluteLinkArray_serialize_eq)
qed

lemma StaticLinkData_deserialize_serialize:
  assumes lr: "length (relativeLinks d) < 2 ^ 32"
    and la: "length (absoluteLinks d) = AsmJSImm_Limit"
    and lv: "list_all (\<lambda>v. length v < 2 ^ 32) (absoluteLinks d)"
    and alloc: "\<And>n. allocOk n"
  shows "StaticLinkData_deserialize allocOk (StaticLinkData_serialize [] d @ rest) = Inr (d, rest)"
proof -
  define t2 where "t2 = AbsoluteLinkArray_serialize [] (absoluteLinks d) @ rest"
  define t1 where "t1 = SerializePodVector RelativeLink_bytes [] (relativeLinks d) @ t2"
  have s: "StaticLinkData_serialize [] d @ rest = word_to_bytes (interruptExitOffset d) @ t1"
    by (simp add: StaticLinkData_serialize_eq t1_def t2_def)
  have d1: "DeserializePodVector allocOk RelativeLink_of_bytes sizeof_RelativeLink t1
              = Inr (relativeLinks d, t2)"
    unfolding t1_def
    by (rule DeserializePodVector_SerializePodVector)
       (use lr alloc in \<open>simp_all add: RelativeLink_of_bytes_inv\<close>)
  have d2: "AbsoluteLinkArray_deserialize allocOk t2 = Inr (absoluteLinks d, rest)"
    unfolding t2_def by (rule AbsoluteLinkArray_deserialize_serialize[OF la lv]) (rule alloc)
  show ?thesis
    unfolding s StaticLinkData_deserialize_def ReadScalar32_bytes
    by (simp add: d1 d2 bindE_def)
qed

lemma SerializeName_shift:
  "SerializeName (c @ x) n = c @ x @ SerializeName [] n"
  using SerializeName_app[of "c @ x" n] by simp

lemma SerializePodVector_shift:
  "SerializePodVector enc (c @ x) v = c @ x @ SerializePodVector enc [] v"
  using SerializePodVector_app[of enc "c @ x" v] by simp

lemma SerializeVector_shift:
  assumes "\<And>x c. ser c x = c @ ser [] x"
  shows "SerializeVector ser (c @ x) v = c @ x @ SerializeVector ser [] v"
  using SerializeVector_app[of v ser "c @ x", OF assms] SerializeVector_app[of v ser "[]", OF assms]
  by simp

lemma StaticLinkData_serialize_shift:
  "StaticLinkData_serialize (c @ x) d = c @ x @ StaticLinkData_serialize [] d"
  using StaticLinkData_serialize_eq[of "c @ x" d] StaticLinkData_serialize_eq[of "[]" d] by simp

lemma serialize_eq:
  "serialize m s [] =
     Pod_bytes (sizeof_ptr m) (pod m) @
     read_at 0 (codeBytes (pod m)) (image_of m s) @
     SerializeName [] (globalArgumentName m) @
     SerializeName [] (importArgumentName m) @
     SerializeName [] (bufferArgumentName m) @
     SerializeVector Global_serialize [] (globals m) @
     SerializeVector Exit_serialize [] (exits m) @
     SerializeVector ExportedFunction_serialize [] (exports m) @
     SerializePodVector CallSite_bytes [] (callSites m) @
     SerializePodVector CodeRange_bytes [] (codeRanges m) @
     SerializePodVector FuncPtrTable_bytes [] (funcPtrTables m) @
     SerializePodVector word_to_bytes [] (builtinThunkOffsets m) @
     SerializeVector SerializeName [] (names m) @
     SerializePodVector AsmJSHeapAccess_bytes [] (heapAccesses m) @
     StaticLinkData_serialize [] (staticLinkData m)"
  unfolding serialize_def Let_def WriteBytes_def
  by (simp add: SerializeName_shift SerializePodVector_shift StaticLinkData_serialize_shift
      SerializeVector_shift[OF Global_serialize_app] SerializeVector_shift[OF Exit_serialize_app]
      SerializeVector_shift[OF ExportedFunction_serialize_app]
      SerializeVector_shift[OF SerializeName_app])

lemma runSteps_deserializeMembers:
  fixes mm :: "'p::len word AsmJSModule"
  assumes alloc: "\<And>n. ok n"
    and n1: "name_ok (globalArgumentName m)"
    and n2: "name_ok (importArgumentName m)"
    and n3: "name_ok (bufferArgumentName m)"
    and g: "list_all Global_ok (globals m)"
    and e: "list_all ExportedFunction_ok (exports m)"
    and n: "list_all name_ok (names m)"
    and lens: "length (globals m) < 2 ^ 32" "length (exits m) < 2 ^ 32"
      "length (exports m) < 2 ^ 32" "length (callSites m) < 2 ^ 32"
      "length (codeRanges m) < 2 ^ 32" "length (funcPtrTables m) < 2 ^ 32"
      "length (builtinThunkOffsets m) < 2 ^ 32" "length (names m) < 2 ^ 32"
      "length (heapAccesses m) < 2 ^ 32"
      "length (relativeLinks (staticLinkData m)) < 2 ^ 32"
    and la: "length (absoluteLinks (staticLinkData m)) = AsmJSImm_Limit"
    and lv: "list_all (\<lambda>v. length v < 2 ^ 32) (absoluteLinks (staticLinkData m))"
  shows "runSteps (deserializeMembers ok)
           (mm,
            SerializeName [] (globalArgumentName m) @
            SerializeName [] (importArgumentName m) @
            SerializeName [] (bufferArgumentName m) @
            SerializeVector Global_serialize [] (globals m) @
            SerializeVector Exit_serialize [] (exits m) @
            SerializeVector ExportedFunction_serialize [] (exports m) @
            SerializePodVector CallSite_bytes [] (callSites m) @
            SerializePodVector CodeRange_bytes [] (codeRanges m) @
            SerializePodVector FuncPtrTable_bytes [] (funcPtrTables m) @
            SerializePodVector word_to_bytes [] (builtinThunkOffsets m) @
            SerializeVector SerializeName [] (names m) @
            SerializePodVector AsmJSHeapAccess_bytes [] (heapAccesses m) @
            StaticLinkData_serialize [] (staticLinkData m) @ rest)
         = (Inr rest,
            mm \<lparr> globalArgumentName := globalArgumentName m,
                 importArgumentName := importArgumentName m,
                 bufferArgumentName := bufferArgumentName m,
                 globals := globals m,
                 exits := exits m,
                 exports := exports m,
                 callSites := callSites m,
                 codeRanges := codeRanges m,
                 funcPtrTables := funcPtrTables m,
                 builtinThunkOffsets := builtinThunkOffsets m,
                 names := names m,
                 heapAccesses := heapAccesses m,
                 staticLinkData := staticLinkData m \<rparr>)"
proof -
  have d1: "DeserializeName ok (SerializeName [] (globalArgumentName m) @ r)
              = Inr (globalArgumentName m, r)" for r
    by (rule DeserializeName_SerializeName[OF n1]) (rule alloc)
  have d2: "DeserializeName ok (SerializeName [] (importArgumentName m) @ r)
              = Inr (importArgumentName m, r)" for r
    by (rule DeserializeName_SerializeName[OF n2]) (rule alloc)
  have d3: "DeserializeName ok (SerializeName [] (bufferArgumentName m) @ r)
              = Inr (bufferArgumentName m, r)" for r
    by (rule DeserializeName_SerializeName[OF n3]) (rule alloc)
  have d4: "DeserializeVector ok (Global_deserialize ok)
              (SerializeVector Global_serialize [] (globals m) @ r) = Inr (globals m, r)" for r
  proof (rule DeserializeVector_SerializeVector)
    show "Global_serialize c x = c @ Global_serialize [] x" for x c
      by (rule Global_serialize_app)
    show "Global_deserialize ok (Global_serialize [] x @ r') = Inr (x, r')"
      if "x \<in> set (globals m)" for x r'
      by (rule Global_deserialize_serialize) (use g that alloc in \<open>simp_all add: list_all_iff\<close>)
    show "length (globals m) < 2 ^ 32" by (rule lens)
    show "ok k" for k by (rule alloc)
  qed
  have d5: "DeserializeVector ok Exit_deserialize
              (SerializeVector Exit_serialize [] (exits m) @ r) = Inr (exits m, r)" for r
  proof (rule DeserializeVector_SerializeVector)
    show "Exit_serialize c x = c @ Exit_serialize [] x" for x c
      by (rule Exit_serialize_app)
    show "Exit_deserialize (Exit_serialize [] x @ r') = Inr (x, r')" for x r'
      by (rule Exit_deserialize_serialize)
    show "length (exits m) < 2 ^ 32" by (rule lens)
    show "ok k" for k by (rule alloc)
  qed
  have d6: "DeserializeVector ok (ExportedFunction_deserialize ok)
              (SerializeVector ExportedFunction_serialize [] (exports m) @ r)
              = Inr (exports m, r)" for r
  proof (rule DeserializeVector_SerializeVector)
    show "ExportedFunction_serialize c x = c @ ExportedFunction_serialize [] x" for x c
      by (rule ExportedFunction_serialize_app)
    show "ExportedFunction_deserialize ok (ExportedFunction_serialize [] x @ r') = Inr (x, r')"
      if "x \<in> set (exports m)" for x r'
      by (rule ExportedFunction_deserialize_serialize)
         (use e that alloc in \<open>simp_all add: list_all_iff\<close>)
    show "length (exports m) < 2 ^ 32" by (rule lens)
    show "ok k" for k by (rule alloc)
  qed
  have d7: "DeserializePodVector ok CallSite_of_bytes sizeof_CallSite
              (SerializePodVector CallSite_bytes [] (callSites m) @ r) = Inr (callSites m, r)" for r
    by (rule DeserializePodVector_SerializePodVector)
       (use lens alloc in \<open>simp_all add: CallSite_of_bytes_inv\<close>)
  have d8: "DeserializePodVector ok CodeRange_of_bytes sizeof_CodeRange
              (SerializePodVector CodeRange_bytes [] (codeRanges m) @ r) = Inr (codeRanges m, r)" for r
    by (rule DeserializePodVector_SerializePodVector)
       (use lens alloc in \<open>simp_all add: CodeRange_of_bytes_inv\<close>)
  have d9: "DeserializePodVector ok FuncPtrTable_of_bytes sizeof_FuncPtrTable
              (SerializePodVector FuncPtrTable_bytes [] (funcPtrTables m) @ r)
              = Inr (funcPtrTables m, r)" for r
    by (rule DeserializePodVector_SerializePodVector)
       (use lens alloc in \<open>simp_all add: FuncPtrTable_of_bytes_inv\<close>)
  have d10: "DeserializePodVector ok u32_of_bytes 4
              (SerializePodVector word_to_bytes [] (builtinThunkOffsets m) @ r)
              = Inr (builtinThunkOffsets m, r)" for r
    by (rule u32_vector_roundtrip) (use lens alloc in simp_all)
  have d11: "DeserializeVector ok (DeserializeName ok)
              (SerializeVector SerializeName [] (names m) @ r) = Inr (names m, r)" for r
  proof (rule DeserializeVector_SerializeVector)
    show "SerializeName c x = c @ SerializeName [] x" for x c
      by (rule SerializeName_app)
    show "DeserializeName ok (SerializeName [] x @ r') = Inr (x, r')"
      if "x \<in> set (names m)" for x r'
      by (rule DeserializeName_SerializeName) (use n that alloc in \<open>simp_all add: list_all_iff\<close>)
    show "length (names m) < 2 ^ 32" by (rule lens)
    show "ok k" for k by (rule alloc)
  qed
  have d12: "DeserializePodVector ok AsmJSHeapAccess_of_bytes sizeof_AsmJSHeapAccess
              (SerializePodVector AsmJSHeapAccess_bytes [] (heapAccesses m) @ r)
              = Inr (heapAccesses m, r)" for r
    by (rule DeserializePodVector_SerializePodVector)
       (use lens alloc in \<open>simp_all add: AsmJSHeapAccess_of_bytes_inv\<close>)
  have d13: "StaticLinkData_deserialize ok (StaticLinkData_serialize [] (staticLinkData m) @ r)
              = Inr (staticLinkData m, r)" for r
    by (rule StaticLinkData_deserialize_serialize[OF lens(10) la lv]) (rule alloc)
  show ?thesis
    unfolding deserializeMembers_def
    by (simp add: readMember_def bindE_def d1 d2 d3 d4 d5 d6 d7 d8 d9 d10 d11 d12 d13)
qed

lemma example_cached64_serializable: "serializable example_cached64 example_mapped64"
  by (simp add: serializable_def representable_def Pod_ok_def example_cached64_def
      example_mapped64_def AsmJSModule_new_def image_of_def name_ok_def Global_ok_def
      ExportedFunction_ok_def sizeof_Global_pod_def sizeof_ExportedFunction_pod_def
      sizeof_ptr_def word_bytes_def list_all_iff)

text \<open>
  Claim C10. \<^verbatim>\<open>serialize\<close> advances the write cursor by exactly \<^verbatim>\<open>serializedSize()\<close> bytes:
  the header, the \<^verbatim>\<open>codeBytes\<close> bytes of the image, the three argument names, every
  length-prefixed table and the static-link data are counted by the size computation as
  they are written, for every module whose names are not empty, whose opaque \<^verbatim>\<open>pod\<close>
  members have their \<^verbatim>\<open>sizeof\<close> and whose image holds the code bytes. A buffer of
  \<^verbatim>\<open>serializedSize()\<close> bytes, as \<^verbatim>\<open>StoreAsmJSModuleInCache\<close> opens, is filled to its end and
  not beyond.
\<close>

theorem serialize_advances_by_serializedSize:
  fixes m :: "'p::len word AsmJSModule"
  assumes "representable m s"
  shows "length (serialize m s cursor) = length cursor + serializedSize m"
proof -
  have code: "length (read_at 0 (codeBytes (pod m)) (image_of m s)) = codeBytes (pod m)"
    using assms by (simp add: representable_def length_read_at)
  have n1: "name_ok (globalArgumentName m)" and n2: "name_ok (importArgumentName m)"
    and n3: "name_ok (bufferArgumentName m)"
    using assms by (simp_all add: representable_def)
  have g: "length (SerializeVector Global_serialize c (globals m))
      = length c + SerializedVectorSize Global_serializedSize (globals m)" for c
    by (rule length_SerializeVector, rule length_Global_serialize)
       (use assms in \<open>simp add: representable_def list_all_iff\<close>)
  have e: "length (SerializeVector Exit_serialize c (exits m))
      = length c + SerializedVectorSize Exit_serializedSize (exits m)" for c
    by (rule length_SerializeVector, rule length_Exit_serialize)
  have x: "length (SerializeVector ExportedFunction_serialize c (exports m))
      = length c + SerializedVectorSize ExportedFunction_serializedSize (exports m)" for c
    by (rule length_SerializeVector, rule length_ExportedFunction_serialize)
       (use assms in \<open>simp add: representable_def list_all_iff\<close>)
  have cs: "length (SerializePodVector CallSite_bytes c (callSites m))
      = length c + SerializedPodVectorSize sizeof_CallSite (callSites m)" for c
    by (rule length_SerializePodVector) simp
  have cr: "length (SerializePodVector CodeRange_bytes c (codeRanges m))
      = length c + SerializedPodVectorSize sizeof_CodeRange (codeRanges m)" for c
    by (rule length_SerializePodVector) simp
  have ft: "length (SerializePodVector FuncPtrTable_bytes c (funcPtrTables m))
      = length c + SerializedPodVectorSize sizeof_FuncPtrTable (funcPtrTables m)" for c
    by (rule length_SerializePodVector) simp
  have bt: "length (SerializePodVector word_to_bytes c (builtinThunkOffsets m))
      = length c + SerializedPodVectorSize 4 (builtinThunkOffsets m)" for c
    by (rule length_SerializePodVector) simp
  have nm: "length (SerializeVector SerializeName c (names m))
      = length c + SerializedVectorSize SerializedNameSize (names m)" for c
    by (rule length_SerializeVector, rule length_SerializeName)
       (use assms in \<open>simp add: representable_def list_all_iff\<close>)
  have ha: "length (SerializePodVector AsmJSHeapAccess_bytes c (heapAccesses m))
      = length c + SerializedPodVectorSize sizeof_AsmJSHeapAccess (heapAccesses m)" for c
    by (rule length_SerializePodVector) simp
  show ?thesis
    unfolding serialize_def serializedSize_def Let_def
    by (simp only: length_StaticLinkData_serialize ha nm bt ft cr cs x e g
        length_SerializeName[OF n1] length_SerializeName[OF n2] length_SerializeName[OF n3]
        length_WriteBytes code length_Pod_bytes add.assoc)
qed

theorem serialize_advances_by_serializedSize_witness:
  "representable example_cached64 example_mapped64 \<and>
   length (serialize example_cached64 example_mapped64 []) = serializedSize example_cached64"
  using serialize_advances_by_serializedSize[of example_cached64 example_mapped64 "[]"]
    example_cached64_serializable
  by (simp add: serializable_def)

lemma deserialize_serialize_result:
  fixes m m0 :: "'p::len word AsmJSModule"
  assumes ser: "serializable m s"
    and tape: "mmap_tape s0 = a # t" and a0: "a \<noteq> 0" and fresh: "regions s0 a = None"
    and alloc: "\<And>n. malloc_ok s0 n"
  shows "deserialize m0 s0 (serialize m s [] @ rest)
           = (Inr rest,
              m0 \<lparr> pod := pod m, code := a,
                   globalArgumentName := globalArgumentName m,
                   importArgumentName := importArgumentName m,
                   bufferArgumentName := bufferArgumentName m,
                   globals := globals m,
                   exits := exits m,
                   exports := exports m,
                   callSites := callSites m,
                   codeRanges := codeRanges m,
                   funcPtrTables := funcPtrTables m,
                   builtinThunkOffsets := builtinThunkOffsets m,
                   names := names m,
                   heapAccesses := heapAccesses m,
                   staticLinkData := staticLinkData m,
                   loadedFromCache := True \<rparr>,
              s0 \<lparr> regions := (regions s0)
                      (a \<mapsto> write_at 0 (read_at 0 (codeBytes (pod m)) (image_of m s))
                                  (replicate (totalBytes (pod m)) 0)),
                   mmap_tape := t \<rparr>)"
proof -
  define k where "k = sizeof_ptr m"
  have k0: "sizeof_ptr m0 = k" by (simp add: k_def sizeof_ptr_def word_bytes_def)
  define cb where "cb = read_at 0 (codeBytes (pod m)) (image_of m s)"
  define members where "members =
      SerializeName [] (globalArgumentName m) @
      SerializeName [] (importArgumentName m) @
      SerializeName [] (bufferArgumentName m) @
      SerializeVector Global_serialize [] (globals m) @
      SerializeVector Exit_serialize [] (exits m) @
      SerializeVector ExportedFunction_serialize [] (exports m) @
      SerializePodVector CallSite_bytes [] (callSites m) @
      SerializePodVector CodeRange_bytes [] (codeRanges m) @
      SerializePodVector FuncPtrTable_bytes [] (funcPtrTables m) @
      SerializePodVector word_to_bytes [] (builtinThunkOffsets m) @
      SerializeVector SerializeName [] (names m) @
      SerializePodVector AsmJSHeapAccess_bytes [] (heapAccesses m) @
      StaticLinkData_serialize [] (staticLinkData m) @ rest"
  have rep: "representable m s" and pok: "Pod_ok k (pod m)"
    using ser by (simp_all add: serializable_def k_def)
  have fit: "codeBytes (pod m) \<le> totalBytes (pod m)" using pok by (simp add: Pod_ok_def)
  have lcb: "length cb = codeBytes (pod m)"
    using rep by (simp add: cb_def representable_def read_at_def)
  have s: "serialize m s [] @ rest = Pod_bytes k (pod m) @ cb @ members"
    by (simp add: serialize_eq k_def cb_def members_def)
  have r1: "ReadBytes (Pod_bytes k (pod m) @ cb @ members) (sizeof_Pod k)
              = Inr (Pod_bytes k (pod m), cb @ members)"
    by (rule ReadBytes_append) simp
  have r2: "ReadBytes (cb @ members) (codeBytes (pod m)) = Inr (cb, members)"
    by (rule ReadBytes_append) (simp add: lcb)
  define s1 where "s1 = s0 \<lparr> regions := (regions s0)(a \<mapsto> replicate (totalBytes (pod m)) 0),
                              mmap_tape := t \<rparr>"
  have al: "AllocateExecutableMemory s0 (totalBytes (pod m)) = (a, s1)"
    using tape a0 fresh by (simp add: AllocateExecutableMemory_def s1_def)
  define m2 where "m2 = m0 \<lparr> pod := pod m, code := a \<rparr>"
  define img where "img = write_at 0 cb (replicate (totalBytes (pod m)) 0)"
  define s2 where "s2 = s1 \<lparr> regions := (regions s1)(a \<mapsto> img) \<rparr>"
  have mi: "modify_image m2 (write_at 0 cb) s1 = s2"
    by (simp add: modify_image_def m2_def s1_def s2_def img_def)
  have ok2: "malloc_ok s2 n" for n using alloc by (simp add: s2_def s1_def)
  define m3 where "m3 = m2 \<lparr> globalArgumentName := globalArgumentName m,
                 importArgumentName := importArgumentName m,
                 bufferArgumentName := bufferArgumentName m,
                 globals := globals m,
                 exits := exits m,
                 exports := exports m,
                 callSites := callSites m,
                 codeRanges := codeRanges m,
                 funcPtrTables := funcPtrTables m,
                 builtinThunkOffsets := builtinThunkOffsets m,
                 names := names m,
                 heapAccesses := heapAccesses m,
                 staticLinkData := staticLinkData m \<rparr>"
  have run: "runSteps (deserializeMembers (malloc_ok s2)) (m2, members) = (Inr rest, m3)"
    unfolding members_def m3_def
    by (rule runSteps_deserializeMembers)
       (use ser ok2 in \<open>simp_all add: serializable_def representable_def\<close>)
  have pm2: "pod m2 = pod m" by (simp add: m2_def)
  have d: "deserialize m0 s0 (serialize m s [] @ rest)
             = (Inr rest, m3 \<lparr> loadedFromCache := True \<rparr>, s2)"
    unfolding s deserialize_def k0 r1
    using a0 fit
    by (simp add: Pod_of_bytes_inv[OF pok] al m2_def[symmetric] pm2 r2 mi run)
  show ?thesis
    unfolding d by (simp add: m3_def m2_def s2_def s1_def img_def cb_def)
qed

text \<open>
  Claim C2. Reading back what \<^verbatim>\<open>serialize\<close> wrote: \<^verbatim>\<open>deserialize\<close>, given an operating system
  that maps the image and an allocator that grants the vectors, returns the cursor at the
  end of the bytes \<^verbatim>\<open>serialize\<close> produced (whatever follows them is left unread), and the
  module it fills has the same first \<^verbatim>\<open>codeBytes\<close> bytes in its image, the same header,
  argument names, global, exit, export, call-site, code-range, function-pointer-table,
  builtin-thunk, name and heap-access tables and the same static-link data.
\<close>

theorem deserialize_serialize_roundtrip:
  fixes m m0 :: "'p::len word AsmJSModule"
  assumes ser: "serializable m s"
    and tape: "mmap_tape s0 = a # t" and a0: "a \<noteq> 0" and fresh: "regions s0 a = None"
    and alloc: "\<And>n. malloc_ok s0 n"
  shows "case deserialize m0 s0 (serialize m s [] @ rest) of
           (r, m', s') \<Rightarrow>
             r = Inr rest \<and>
             read_at 0 (codeBytes (pod m')) (image_of m' s')
               = read_at 0 (codeBytes (pod m)) (image_of m s) \<and>
             pod m' = pod m \<and>
             globalArgumentName m' = globalArgumentName m \<and>
             importArgumentName m' = importArgumentName m \<and>
             bufferArgumentName m' = bufferArgumentName m \<and>
             globals m' = globals m \<and>
             exits m' = exits m \<and>
             exports m' = exports m \<and>
             callSites m' = callSites m \<and>
             codeRanges m' = codeRanges m \<and>
             funcPtrTables m' = funcPtrTables m \<and>
             builtinThunkOffsets m' = builtinThunkOffsets m \<and>
             names m' = names m \<and>
             heapAccesses m' = heapAccesses m \<and>
             staticLinkData m' = staticLinkData m"
proof -
  define cb where "cb = read_at 0 (codeBytes (pod m)) (image_of m s)"
  have fit: "codeBytes (pod m) \<le> totalBytes (pod m)"
    using ser by (simp add: serializable_def Pod_ok_def)
  have lcb: "length cb = codeBytes (pod m)"
    using ser by (simp add: cb_def serializable_def representable_def read_at_def)
  have rd: "read_at 0 (codeBytes (pod m)) (write_at 0 cb (replicate (totalBytes (pod m)) 0)) = cb"
    using read_at_write_at_same[of 0 cb "replicate (totalBytes (pod m)) 0"] fit lcb by simp
  show ?thesis
    unfolding deserialize_serialize_result[OF ser tape a0 fresh alloc]
    using rd by (simp add: image_of_def cb_def)
qed

theorem deserialize_serialize_roundtrip_witness:
  "serializable example_cached64 example_mapped64 \<and>
   mmap_tape example_mapped64 = [0x30000] \<and>
   regions example_mapped64 0x30000 = None \<and>
   (\<forall>n. malloc_ok example_mapped64 n) \<and>
   (case deserialize (AsmJSModule_new 0 0 0 False False) example_mapped64
           (serialize example_cached64 example_mapped64 [] @ [0xff]) of
      (r, m', s') \<Rightarrow>
        r = Inr [0xff] \<and>
        read_at 0 8 (image_of m' s') = read_at 0 8 (image_of example_cached64 example_mapped64) \<and>
        globals m' = globals example_cached64 \<and>
        exports m' = exports example_cached64 \<and>
        names m' = names example_cached64 \<and>
        staticLinkData m' = staticLinkData example_cached64)"
proof -
  have t: "mmap_tape example_mapped64 = [0x30000]"
    and f: "regions example_mapped64 0x30000 = None"
    and a: "malloc_ok example_mapped64 n" for n
    by (simp_all add: example_mapped64_def)
  have cb: "codeBytes (pod example_cached64) = 8"
    by (simp add: example_cached64_def)
  have "case deserialize (AsmJSModule_new 0 0 0 False False) example_mapped64
           (serialize example_cached64 example_mapped64 [] @ [0xff]) of
      (r, m', s') \<Rightarrow>
        r = Inr [0xff] \<and>
        read_at 0 (codeBytes (pod m')) (image_of m' s')
          = read_at 0 (codeBytes (pod example_cached64)) (image_of example_cached64 example_mapped64) \<and>
        pod m' = pod example_cached64 \<and>
        globalArgumentName m' = globalArgumentName example_cached64 \<and>
        importArgumentName m' = importArgumentName example_cached64 \<and>
        bufferArgumentName m' = bufferArgumentName example_cached64 \<and>
        globals m' = globals example_cached64 \<and>
        exits m' = exits example_cached64 \<and>
        exports m' = exports example_cached64 \<and>
        callSites m' = callSites example_cached64 \<and>
        codeRanges m' = codeRanges example_cached64 \<and>
        funcPtrTables m' = funcPtrTables example_cached64 \<and>
        builtinThunkOffsets m' = builtinThunkOffsets example_cached64 \<and>
        names m' = names example_cached64 \<and>
        heapAccesses m' = heapAccesses example_cached64 \<and>
        staticLinkData m' = staticLinkData example_cached64"
    by (rule deserialize_serialize_roundtrip[OF example_cached64_serializable t _ f a]) simp
  then show ?thesis
    using example_cached64_serializable t f a cb
    by (auto split: prod.splits)
qed

section \<open>Properties of cache admission\<close>



















end
